theory Spec2Isabelle
  imports Main "HOL-Library.Word"
begin

section \<open>Data model of the order book\<close>

text \<open>
  The embedded source is \<^verbatim>\<open>include/trader/matching/order_book.inl\<close>: the constructor
  of \<^verbatim>\<open>OrderBook\<close>, the six exact-price level lookups, the three level traversals, the two
  market price queries and \<^verbatim>\<open>UpdateLastPrice\<close>. Prices are \<^verbatim>\<open>uint64_t\<close>, modelled as
  64-bit words whose order is the unsigned one.
\<close>

type_synonym u64 = "64 word"

definition UINT64_MAX :: u64 where
  "UINT64_MAX = 0xFFFFFFFFFFFFFFFF"

text \<open>
  \<^verbatim>\<open>std::max(a, b)\<close> is \<^verbatim>\<open>(a < b) ? b : a\<close> and \<^verbatim>\<open>std::min(a, b)\<close> is
  \<^verbatim>\<open>(b < a) ? b : a\<close>, both on unsigned 64-bit values.
\<close>

definition std_max :: "u64 \<Rightarrow> u64 \<Rightarrow> u64" where
  "std_max a b = (if a < b then b else a)"

definition std_min :: "u64 \<Rightarrow> u64 \<Rightarrow> u64" where
  "std_min a b = (if b < a then b else a)"

datatype LevelType = BID | ASK

datatype OrderSide = BUY | SELL

datatype OrderType = MARKET | LIMIT | STOP | STOP_LIMIT | TRAILING_STOP | TRAILING_STOP_LIMIT

text \<open>
  Of an order the source file reads \<^verbatim>\<open>order.IsBuy()\<close> and \<^verbatim>\<open>order.Price\<close> only.
  Modelled from the spec: the declaration of \<^verbatim>\<open>Order\<close> is not part of the source file; the
  other fields are those of section 3, "side; type; price; stop/trigger price; trailing
  distance; trailing step; quantity and remaining quantity; arrival sequence number (defines
  time priority); owner/order id", and the anchor of section 4.4, "a recorded anchor market
  price at the time the trigger was last set".
\<close>

record Order =
  Id :: u64
  Side :: OrderSide
  Type :: OrderType
  Price :: u64
  StopPrice :: u64
  TrailingDistance :: u64
  TrailingStep :: u64
  Quantity :: u64
  LeavesQuantity :: u64
  Sequence :: nat
  Anchor :: u64

definition IsBuy :: "Order \<Rightarrow> bool" where
  "IsBuy order \<longleftrightarrow> Side order = BUY"

text \<open>
  Of a level node the source file uses the constructor \<^verbatim>\<open>LevelNode(type, price)\<close>,
  \<^verbatim>\<open>level->IsBid()\<close> and \<^verbatim>\<open>level->Price\<close>.
  Modelled from the spec: the declaration of \<^verbatim>\<open>LevelNode\<close> is not part of the source
  file; the volume and the queue are those of section 3, a price level "holds aggregated
  remaining volume and a time-ordered queue of order references". The head of
  \<open>OrderList\<close> is the order that arrived first.
\<close>

record LevelNode =
  Type :: LevelType
  Price :: u64
  TotalVolume :: u64
  OrderList :: "Order list"

definition LevelNode_make :: "LevelType \<Rightarrow> u64 \<Rightarrow> LevelNode" where
  "LevelNode_make type price =
     \<lparr> Type = type, Price = price, TotalVolume = 0, OrderList = [] \<rparr>"

definition IsBid :: "LevelNode \<Rightarrow> bool" where
  "IsBid level \<longleftrightarrow> Type level = BID"

section \<open>The level container\<close>

text \<open>
  Modelled from the spec: the container type \<^verbatim>\<open>Levels\<close> of the six indices, its
  \<^verbatim>\<open>find\<close> and its iterators are not part of the source file. Section 4.2 describes an
  "ordered container keyed by price" with exact-price lookup, whose forward traversal is
  ascending in price (the ask side, "lower price is better", is walked forward from best to
  worse) and whose reverse traversal is descending (the bid side). A container is the list of
  its nodes in forward order; a pointer to a node is the node, and \<open>None\<close> is the null
  pointer and the past-the-end iterator. \<^verbatim>\<open>find\<close> yields the first node that is neither
  less nor greater than the key, nodes being compared by price.
\<close>

type_synonym Levels = "LevelNode list"

definition level_less :: "LevelNode \<Rightarrow> LevelNode \<Rightarrow> bool" where
  "level_less a b \<longleftrightarrow> LevelNode.Price a < LevelNode.Price b"

definition Levels_find :: "Levels \<Rightarrow> LevelNode \<Rightarrow> LevelNode option" where
  "Levels_find xs key = List.find (\<lambda>n. \<not> level_less n key \<and> \<not> level_less key n) xs"

definition Levels_end :: "Levels \<Rightarrow> LevelNode option" where
  "Levels_end xs = None"

text \<open>The node that follows the node \<open>x\<close> in a sequence of nodes.\<close>

fun node_after :: "LevelNode list \<Rightarrow> LevelNode \<Rightarrow> LevelNode option" where
  "node_after [] x = None"
| "node_after (y # ys) x =
     (if y = x then (case ys of [] \<Rightarrow> None | z # zs \<Rightarrow> Some z) else node_after ys x)"

text \<open>
  An iterator is the container and the current node. \<^verbatim>\<open>++it\<close> of a forward iterator moves
  to the next node in forward order, of a reverse iterator to the previous one;
  \<^verbatim>\<open>it.operator->()\<close> yields the current node, null past the end. The node given to an
  iterator is expected to be a node of the container; for a node that is not, the step
  yields null.
\<close>

datatype iterator = Iterator Levels "LevelNode option"

datatype reverse_iterator = ReverseIterator Levels "LevelNode option"

fun iterator_inc :: "iterator \<Rightarrow> iterator" where
  "iterator_inc (Iterator xs None) = Iterator xs None"
| "iterator_inc (Iterator xs (Some x)) = Iterator xs (node_after xs x)"

fun iterator_arrow :: "iterator \<Rightarrow> LevelNode option" where
  "iterator_arrow (Iterator xs n) = n"

fun reverse_iterator_inc :: "reverse_iterator \<Rightarrow> reverse_iterator" where
  "reverse_iterator_inc (ReverseIterator xs None) = ReverseIterator xs None"
| "reverse_iterator_inc (ReverseIterator xs (Some x)) = ReverseIterator xs (node_after (rev xs) x)"

fun reverse_iterator_arrow :: "reverse_iterator \<Rightarrow> LevelNode option" where
  "reverse_iterator_arrow (ReverseIterator xs n) = n"

text \<open>
  The invariant of a container: its nodes are in strictly ascending order of price, so no
  two nodes have the same price.
\<close>

definition Levels_ordered :: "Levels \<Rightarrow> bool" where
  "Levels_ordered xs \<longleftrightarrow> sorted_wrt level_less xs"

section \<open>The order book\<close>

text \<open>
  The fields of \<^verbatim>\<open>OrderBook\<close> that the source file names, without the leading underscore.
  The memory managers and the level pool carry no value that a method of the source file
  reads, and are left out. The type of the symbol is a parameter.
\<close>

record 'symbol OrderBook =
  symbol :: 'symbol
  best_bid :: "LevelNode option"
  best_ask :: "LevelNode option"
  bids :: Levels
  asks :: Levels
  best_buy_stop :: "LevelNode option"
  best_sell_stop :: "LevelNode option"
  buy_stop :: Levels
  sell_stop :: Levels
  best_trailing_buy_stop :: "LevelNode option"
  best_trailing_sell_stop :: "LevelNode option"
  trailing_buy_stop :: Levels
  trailing_sell_stop :: Levels
  last_bid_price :: u64
  last_ask_price :: u64
  trailing_bid_price :: u64
  trailing_ask_price :: u64

text \<open>
  The constructor: the six containers are default-constructed, hence empty.
\<close>

definition OrderBook_new :: "'symbol \<Rightarrow> 'symbol OrderBook" where
  "OrderBook_new symbol_arg =
     \<lparr> symbol = symbol_arg,
       best_bid = None,
       best_ask = None,
       bids = [],
       asks = [],
       best_buy_stop = None,
       best_sell_stop = None,
       buy_stop = [],
       sell_stop = [],
       best_trailing_buy_stop = None,
       best_trailing_sell_stop = None,
       trailing_buy_stop = [],
       trailing_sell_stop = [],
       last_bid_price = 0,
       last_ask_price = UINT64_MAX,
       trailing_bid_price = 0,
       trailing_ask_price = UINT64_MAX \<rparr>"

text \<open>
  A method returns its result and the book after the call. The methods declared
  \<^verbatim>\<open>const\<close> and the three traversals assign to no member.
\<close>

definition GetBid :: "u64 \<Rightarrow> 'symbol OrderBook \<Rightarrow> LevelNode option \<times> 'symbol OrderBook" where
  "GetBid price s =
     (let it = Levels_find (bids s) (LevelNode_make BID price)
      in ((if it \<noteq> Levels_end (bids s) then it else None), s))"

definition GetAsk :: "u64 \<Rightarrow> 'symbol OrderBook \<Rightarrow> LevelNode option \<times> 'symbol OrderBook" where
  "GetAsk price s =
     (let it = Levels_find (asks s) (LevelNode_make ASK price)
      in ((if it \<noteq> Levels_end (asks s) then it else None), s))"

definition GetBuyStopLevel ::
  "u64 \<Rightarrow> 'symbol OrderBook \<Rightarrow> LevelNode option \<times> 'symbol OrderBook" where
  "GetBuyStopLevel price s =
     (let it = Levels_find (buy_stop s) (LevelNode_make ASK price)
      in ((if it \<noteq> Levels_end (buy_stop s) then it else None), s))"

definition GetSellStopLevel ::
  "u64 \<Rightarrow> 'symbol OrderBook \<Rightarrow> LevelNode option \<times> 'symbol OrderBook" where
  "GetSellStopLevel price s =
     (let it = Levels_find (sell_stop s) (LevelNode_make BID price)
      in ((if it \<noteq> Levels_end (sell_stop s) then it else None), s))"

definition GetTrailingBuyStopLevel ::
  "u64 \<Rightarrow> 'symbol OrderBook \<Rightarrow> LevelNode option \<times> 'symbol OrderBook" where
  "GetTrailingBuyStopLevel price s =
     (let it = Levels_find (trailing_buy_stop s) (LevelNode_make ASK price)
      in ((if it \<noteq> Levels_end (trailing_buy_stop s) then it else None), s))"

definition GetTrailingSellStopLevel ::
  "u64 \<Rightarrow> 'symbol OrderBook \<Rightarrow> LevelNode option \<times> 'symbol OrderBook" where
  "GetTrailingSellStopLevel price s =
     (let it = Levels_find (trailing_sell_stop s) (LevelNode_make BID price)
      in ((if it \<noteq> Levels_end (trailing_sell_stop s) then it else None), s))"

definition GetNextLevel ::
  "LevelNode \<Rightarrow> 'symbol OrderBook \<Rightarrow> LevelNode option \<times> 'symbol OrderBook" where
  "GetNextLevel level s =
     (if IsBid level
      then (let it = ReverseIterator (bids s) (Some level);
                it = reverse_iterator_inc it
            in (reverse_iterator_arrow it, s))
      else (let it = Iterator (asks s) (Some level);
                it = iterator_inc it
            in (iterator_arrow it, s)))"


definition GetNextTrailingStopLevel ::
  "LevelNode \<Rightarrow> 'symbol OrderBook \<Rightarrow> LevelNode option \<times> 'symbol OrderBook" where
  "GetNextTrailingStopLevel level s =
     (if IsBid level
      then (let it = ReverseIterator (trailing_sell_stop s) (Some level);
                it = reverse_iterator_inc it
            in (reverse_iterator_arrow it, s))
      else (let it = Iterator (trailing_buy_stop s) (Some level);
                it = iterator_inc it
            in (iterator_arrow it, s)))"

definition GetMarketPriceBid :: "'symbol OrderBook \<Rightarrow> u64 \<times> 'symbol OrderBook" where
  "GetMarketPriceBid s =
     (let last_price = last_bid_price s;
          best_price = (case best_bid s of Some level \<Rightarrow> LevelNode.Price level | None \<Rightarrow> 0)
      in (std_max last_price best_price, s))"

definition GetMarketPriceAsk :: "'symbol OrderBook \<Rightarrow> u64 \<times> 'symbol OrderBook" where
  "GetMarketPriceAsk s =
     (let last_price = last_ask_price s;
          best_price =
            (case best_ask s of Some level \<Rightarrow> LevelNode.Price level | None \<Rightarrow> UINT64_MAX)
      in (std_min last_price best_price, s))"

definition UpdateLastPrice :: "Order \<Rightarrow> 'symbol OrderBook \<Rightarrow> 'symbol OrderBook" where
  "UpdateLastPrice order s =
     (if IsBuy order
      then s\<lparr>last_bid_price := Order.Price order\<rparr>
      else s\<lparr>last_ask_price := Order.Price order\<rparr>)"

section \<open>The matching engine\<close>

text \<open>
  Modelled from the spec: the operations that change the book (the index operations of
  section 4.2 and the matching engine of section 4.5) are not part of the source file, which
  holds the queries and \<^verbatim>\<open>UpdateLastPrice\<close> only. They are written here from the
  sentences of the specification, quoted at each definition, on the book of the source file.
  Notifications to the reporting collaborator and the node pool are left out: no property
  proved below reads them.
\<close>

text \<open>
  Modelled from the spec: the error kinds of section 7, "invalid price/quantity", "duplicate
  order id", "order-not-found", and the structural invariant violations that "must fail fast
  rather than be silently tolerated". Resource exhaustion is left out with the pool.
\<close>

datatype error = InvalidOrder | DuplicateOrder | OrderNotFound | InternalCorruption

subsection \<open>Operations of an index\<close>

text \<open>
  Modelled from the spec: the level that an index lacks, section 4.2, "if absent, allocate
  via the pool and insert; append order to the level's FIFO queue; increase aggregated
  volume".
\<close>

definition new_level :: "LevelType \<Rightarrow> u64 \<Rightarrow> Order \<Rightarrow> LevelNode" where
  "new_level t p order =
     (LevelNode_make t p)\<lparr>TotalVolume := LeavesQuantity order, OrderList := [order]\<rparr>"

text \<open>
  Modelled from the spec: the level that an index has, section 4.2, "append order to the
  level's FIFO queue; increase aggregated volume".
\<close>

definition level_append :: "Order \<Rightarrow> LevelNode \<Rightarrow> LevelNode" where
  "level_append order level =
     level\<lparr>TotalVolume := TotalVolume level + LeavesQuantity order,
           OrderList := OrderList level @ [order]\<rparr>"

text \<open>
  Modelled from the spec: \<^verbatim>\<open>AddOrder\<close> of an index, section 4.2, "locate level at
  order.price; if absent, allocate via the pool and insert; append order to the level's FIFO
  queue". The key \<open>p\<close> is the price of a live order and the trigger price of a conditional
  one; the nodes stay in ascending order of price.
\<close>

fun Levels_AddOrder :: "LevelType \<Rightarrow> u64 \<Rightarrow> Order \<Rightarrow> Levels \<Rightarrow> Levels" where
  "Levels_AddOrder t p order [] = [new_level t p order]"
| "Levels_AddOrder t p order (y # ys) =
     (if p < LevelNode.Price y then new_level t p order # y # ys
      else if p = LevelNode.Price y then level_append order y # ys
      else y # Levels_AddOrder t p order ys)"

text \<open>
  Modelled from the spec: the level after the removal of an order, section 4.2, "remove from
  the FIFO queue, decrease volume". The order is known by its id.
\<close>

definition level_remove :: "Order \<Rightarrow> LevelNode \<Rightarrow> LevelNode" where
  "level_remove order level =
     level\<lparr>TotalVolume := TotalVolume level - LeavesQuantity order,
           OrderList := filter (\<lambda>x. Id x \<noteq> Id order) (OrderList level)\<rparr>"

text \<open>
  Modelled from the spec: \<^verbatim>\<open>DeleteOrder\<close> of an index, section 4.2, "remove from the FIFO
  queue, decrease volume; if the queue becomes empty, remove and free the level".
\<close>

fun Levels_DeleteOrder :: "u64 \<Rightarrow> Order \<Rightarrow> Levels \<Rightarrow> Levels" where
  "Levels_DeleteOrder p order [] = []"
| "Levels_DeleteOrder p order (y # ys) =
     (if p = LevelNode.Price y
      then (if OrderList (level_remove order y) = [] then ys else level_remove order y # ys)
      else y # Levels_DeleteOrder p order ys)"

text \<open>
  Modelled from the spec: the extreme of an index, section 3, "the maximum-price level in the
  bid index, or absent if empty" and "the minimum-price level in the ask index, or absent if
  empty". The sell-stop indices are bid-style and the buy-stop indices ask-style
  (section 4.3).
\<close>

definition best_highest :: "Levels \<Rightarrow> LevelNode option" where
  "best_highest xs = (if xs = [] then None else Some (last xs))"

definition best_lowest :: "Levels \<Rightarrow> LevelNode option" where
  "best_lowest xs = (case xs of [] \<Rightarrow> None | x # ys \<Rightarrow> Some x)"

text \<open>
  Modelled from the spec: the write of an index, with its cached best pointer, section 4.2,
  "if this level is now the extreme for its side, update the cached best pointer" and
  "recompute the new best from the index's current extreme". A pointer being modelled by the
  node it points to, the cached pointer is set to the extreme of the index at every write.
\<close>

definition set_bids :: "Levels \<Rightarrow> 'symbol OrderBook \<Rightarrow> 'symbol OrderBook" where
  "set_bids xs s = s\<lparr>bids := xs, best_bid := best_highest xs\<rparr>"

definition set_asks :: "Levels \<Rightarrow> 'symbol OrderBook \<Rightarrow> 'symbol OrderBook" where
  "set_asks xs s = s\<lparr>asks := xs, best_ask := best_lowest xs\<rparr>"

definition set_buy_stop :: "Levels \<Rightarrow> 'symbol OrderBook \<Rightarrow> 'symbol OrderBook" where
  "set_buy_stop xs s = s\<lparr>buy_stop := xs, best_buy_stop := best_lowest xs\<rparr>"

definition set_sell_stop :: "Levels \<Rightarrow> 'symbol OrderBook \<Rightarrow> 'symbol OrderBook" where
  "set_sell_stop xs s = s\<lparr>sell_stop := xs, best_sell_stop := best_highest xs\<rparr>"

definition set_trailing_buy_stop :: "Levels \<Rightarrow> 'symbol OrderBook \<Rightarrow> 'symbol OrderBook" where
  "set_trailing_buy_stop xs s =
     s\<lparr>trailing_buy_stop := xs, best_trailing_buy_stop := best_lowest xs\<rparr>"

definition set_trailing_sell_stop :: "Levels \<Rightarrow> 'symbol OrderBook \<Rightarrow> 'symbol OrderBook" where
  "set_trailing_sell_stop xs s =
     s\<lparr>trailing_sell_stop := xs, best_trailing_sell_stop := best_highest xs\<rparr>"

text \<open>
  Modelled from the spec: the head order of a level losing \<open>q\<close> units, section 4.5,
  "decrement both; an order reaching zero remaining quantity is removed from its level
  (removing the level too if now empty". The result is the level that remains, \<open>None\<close>
  when the level is removed.
\<close>

definition reduce_head :: "u64 \<Rightarrow> LevelNode \<Rightarrow> LevelNode option" where
  "reduce_head q level =
     (case OrderList level of
        [] \<Rightarrow> None
      | order # rest \<Rightarrow>
          if LeavesQuantity order \<le> q
          then (if rest = [] then None
                else Some (level\<lparr>TotalVolume := TotalVolume level - q, OrderList := rest\<rparr>))
          else Some (level\<lparr>TotalVolume := TotalVolume level - q,
                 OrderList := order\<lparr>LeavesQuantity := LeavesQuantity order - q\<rparr> # rest\<rparr>))"

text \<open>
  Modelled from the spec: the index after its extreme level was replaced by what remains of
  it, or removed.
\<close>

definition put_highest :: "LevelNode option \<Rightarrow> Levels \<Rightarrow> Levels" where
  "put_highest r xs = (case r of None \<Rightarrow> butlast xs | Some level \<Rightarrow> butlast xs @ [level])"

definition put_lowest :: "LevelNode option \<Rightarrow> Levels \<Rightarrow> Levels" where
  "put_lowest r xs = (case r of None \<Rightarrow> tl xs | Some level \<Rightarrow> level # tl xs)"

text \<open>The number of orders that an index holds.\<close>

definition orders_in :: "Levels \<Rightarrow> nat" where
  "orders_in xs = sum_list (map (\<lambda>level. length (OrderList level)) xs)"

lemma orders_in_Nil [simp]: "orders_in [] = 0"
  by (simp add: orders_in_def)

lemma orders_in_Cons [simp]: "orders_in (x # xs) = length (OrderList x) + orders_in xs"
  by (simp add: orders_in_def)

lemma orders_in_put_highest:
  assumes "xs \<noteq> []"
  shows "orders_in (put_highest r xs) + length (OrderList (last xs))
     = orders_in xs + (case r of None \<Rightarrow> 0 | Some level \<Rightarrow> length (OrderList level))"
proof -
  from assms have "xs = butlast xs @ [last xs]" by simp
  moreover have "orders_in (butlast xs @ [last xs])
      = orders_in (butlast xs) + length (OrderList (last xs))"
    by (simp add: orders_in_def)
  ultimately have "orders_in xs = orders_in (butlast xs) + length (OrderList (last xs))"
    by simp
  then show ?thesis
    by (simp add: put_highest_def orders_in_def split: option.split)
qed

lemma orders_in_put_lowest:
  "xs \<noteq> [] \<Longrightarrow> orders_in (put_lowest r xs) + length (OrderList (hd xs))
     = orders_in xs + (case r of None \<Rightarrow> 0 | Some level \<Rightarrow> length (OrderList level))"
  by (cases xs) (simp_all add: put_lowest_def split: option.split)

lemma reduce_head_length:
  "OrderList level = order # rest \<Longrightarrow>
     (case reduce_head q level of None \<Rightarrow> 0 | Some l \<Rightarrow> length (OrderList l))
       = (if LeavesQuantity order \<le> q then length rest else Suc (length rest))"
  by (simp add: reduce_head_def)

lemma orders_in_AddOrder: "orders_in (Levels_AddOrder t p order xs) = Suc (orders_in xs)"
  by (induction xs) (simp_all add: new_level_def level_append_def)

subsection \<open>The matching loop\<close>

text \<open>
  Modelled from the spec: the crossing condition, section 4.5, "both best-bid and best-ask
  levels exist and \<^verbatim>\<open>best_bid.price >= best_ask.price\<close>".
\<close>

definition crossed :: "'symbol OrderBook \<Rightarrow> bool" where
  "crossed s =
     (case best_bid s of
        None \<Rightarrow> False
      | Some b \<Rightarrow> (case best_ask s of None \<Rightarrow> False
                   | Some a \<Rightarrow> LevelNode.Price a \<le> LevelNode.Price b))"

text \<open>
  Modelled from the spec: one pairing of the matching loop, section 4.5, "pair the FIFO head
  of the best bid level against the FIFO head of the best ask level. [...] Traded quantity =
  min(remaining quantities of both orders). Decrement both; an order reaching zero remaining
  quantity is removed from its level (removing the level too if now empty, re-deriving new
  best pointers per 4.2). [...] After each trade, update the last-reference price on the
  taker's side." The maker is "the earlier-resting order", the one of the lower arrival
  sequence number, and the taker is the other. By section 7, "an index observed with an empty
  level, a best pointer inconsistent with the index extreme [...] must fail fast".
\<close>

definition MatchPair :: "'symbol OrderBook \<Rightarrow> error + 'symbol OrderBook" where
  "MatchPair s =
     (case best_bid s of
        None \<Rightarrow> Inl InternalCorruption
      | Some b \<Rightarrow>
     (case best_ask s of
        None \<Rightarrow> Inl InternalCorruption
      | Some a \<Rightarrow>
          if best_highest (bids s) \<noteq> Some b \<or> best_lowest (asks s) \<noteq> Some a
          then Inl InternalCorruption
          else (case OrderList b of
                  [] \<Rightarrow> Inl InternalCorruption
                | bid_order # bid_rest \<Rightarrow>
               (case OrderList a of
                  [] \<Rightarrow> Inl InternalCorruption
                | ask_order # ask_rest \<Rightarrow>
                    (let quantity = std_min (LeavesQuantity bid_order) (LeavesQuantity ask_order);
                         taker = (if Sequence bid_order < Sequence ask_order
                                  then ask_order else bid_order);
                         s = set_bids (put_highest (reduce_head quantity b) (bids s)) s;
                         s = set_asks (put_lowest (reduce_head quantity a) (asks s)) s;
                         s = UpdateLastPrice taker s
                     in Inr s)))))"

text \<open>The number of orders in the bid and ask indices; every pairing removes one at least.\<close>

definition resting_orders :: "'symbol OrderBook \<Rightarrow> nat" where
  "resting_orders s = orders_in (bids s) + orders_in (asks s)"

lemma MatchPair_Inr:
  assumes "MatchPair s = Inr s'"
  obtains b a bo br ao ar where
    "best_bid s = Some b" "best_ask s = Some a"
    "best_highest (bids s) = Some b" "best_lowest (asks s) = Some a"
    "OrderList b = bo # br" "OrderList a = ao # ar"
    "s' = UpdateLastPrice (if Sequence bo < Sequence ao then ao else bo)
       (set_asks
         (put_lowest (reduce_head (std_min (LeavesQuantity bo) (LeavesQuantity ao)) a) (asks s))
         (set_bids
           (put_highest (reduce_head (std_min (LeavesQuantity bo) (LeavesQuantity ao)) b)
             (bids s)) s))"
proof (cases "best_bid s")
  case None
  with assms show ?thesis by (simp add: MatchPair_def)
next
  case (Some b)
  note bb = this
  show ?thesis
  proof (cases "best_ask s")
    case None
    with assms bb show ?thesis by (simp add: MatchPair_def)
  next
    case (Some a)
    note ba = this
    show ?thesis
    proof (cases "best_highest (bids s) \<noteq> Some b \<or> best_lowest (asks s) \<noteq> Some a")
      case True
      with assms bb ba show ?thesis by (simp add: MatchPair_def)
    next
      case False
      note ok = this
      show ?thesis
      proof (cases "OrderList b")
        case Nil
        with assms bb ba ok show ?thesis by (simp add: MatchPair_def)
      next
        case (Cons bo br)
        note ob = this
        show ?thesis
        proof (cases "OrderList a")
          case Nil
          with assms bb ba ok ob show ?thesis by (simp add: MatchPair_def)
        next
          case (Cons ao ar)
          with assms bb ba ok ob
          have "s' = UpdateLastPrice (if Sequence bo < Sequence ao then ao else bo)
            (set_asks
              (put_lowest (reduce_head (std_min (LeavesQuantity bo) (LeavesQuantity ao)) a)
                (asks s))
              (set_bids
                (put_highest (reduce_head (std_min (LeavesQuantity bo) (LeavesQuantity ao)) b)
                  (bids s)) s))"
            by (simp add: MatchPair_def Let_def set_asks_def set_bids_def)
          with bb ba ok ob Cons that show ?thesis by blast
        qed
      qed
    qed
  qed
qed

lemma MatchPair_decreases:
  assumes "MatchPair s = Inr s'"
  shows "resting_orders s' < resting_orders s"
proof -
  from assms obtain b a bo br ao ar where
    hb: "best_highest (bids s) = Some b" and ha: "best_lowest (asks s) = Some a"
    and ob: "OrderList b = bo # br" and oa: "OrderList a = ao # ar"
    and s': "s' = UpdateLastPrice (if Sequence bo < Sequence ao then ao else bo)
       (set_asks
         (put_lowest (reduce_head (std_min (LeavesQuantity bo) (LeavesQuantity ao)) a) (asks s))
         (set_bids
           (put_highest (reduce_head (std_min (LeavesQuantity bo) (LeavesQuantity ao)) b)
             (bids s)) s))"
    by (rule MatchPair_Inr)
  define q where "q = std_min (LeavesQuantity bo) (LeavesQuantity ao)"
  from s' have bids': "bids s' = put_highest (reduce_head q b) (bids s)"
    and asks': "asks s' = put_lowest (reduce_head q a) (asks s)"
    by (simp_all add: q_def UpdateLastPrice_def set_asks_def set_bids_def)
  from hb have nb: "bids s \<noteq> []" and lb: "last (bids s) = b"
    by (auto simp: best_highest_def split: if_splits)
  from ha have na: "asks s \<noteq> []" and la: "hd (asks s) = a"
    by (auto simp: best_lowest_def split: list.splits)
  have qq: "LeavesQuantity bo \<le> q \<or> LeavesQuantity ao \<le> q"
    by (auto simp: q_def std_min_def)
  from orders_in_put_highest [OF nb, of "reduce_head q b"] reduce_head_length [OF ob, of q] lb ob
  have e1: "orders_in (bids s') + Suc (length br) = orders_in (bids s)
      + (if LeavesQuantity bo \<le> q then length br else Suc (length br))"
    by (simp add: bids')
  from orders_in_put_lowest [OF na, of "reduce_head q a"] reduce_head_length [OF oa, of q] la oa
  have e2: "orders_in (asks s') + Suc (length ar) = orders_in (asks s)
      + (if LeavesQuantity ao \<le> q then length ar else Suc (length ar))"
    by (simp add: asks')
  from e1 e2 qq show ?thesis
    by (auto simp: resting_orders_def split: if_splits)
qed

text \<open>
  Modelled from the spec: the matching loop, section 4.5, "while both best-bid and best-ask
  levels exist and \<^verbatim>\<open>best_bid.price >= best_ask.price\<close>, pair [...]. Loop terminates when
  either side is empty or the crossing condition no longer holds." The loop is total: every
  pairing removes an order from the two indices.
\<close>

function Match :: "'symbol OrderBook \<Rightarrow> error + 'symbol OrderBook" where
  "Match s =
     (if crossed s
      then (case MatchPair s of Inl e \<Rightarrow> Inl e | Inr s' \<Rightarrow> Match s')
      else Inr s)"
  by pat_completeness auto
termination
  by (relation "measure resting_orders") (simp_all add: MatchPair_decreases)

declare Match.simps [simp del]

subsection \<open>Submission\<close>

text \<open>
  Modelled from the spec: the entry of a live order, section 2, "inserted into (2) or (3)/(4)
  depending on type", (2) being the price-level index of the side of the order, keyed by the
  price of the order. The specification gives a market order no path of its own.
\<close>

definition AddLimit :: "Order \<Rightarrow> 'symbol OrderBook \<Rightarrow> 'symbol OrderBook" where
  "AddLimit order s =
     (if IsBuy order
      then set_bids (Levels_AddOrder BID (Order.Price order) order (bids s)) s
      else set_asks (Levels_AddOrder ASK (Order.Price order) order (asks s)) s)"

text \<open>
  Modelled from the spec: the entry of a stop order, section 4.3, "storing untriggered
  conditional orders keyed by trigger price", the buy-stop index ask-style and the sell-stop
  index bid-style.
\<close>

definition AddStop :: "Order \<Rightarrow> 'symbol OrderBook \<Rightarrow> 'symbol OrderBook" where
  "AddStop order s =
     (if IsBuy order
      then set_buy_stop (Levels_AddOrder ASK (StopPrice order) order (buy_stop s)) s
      else set_sell_stop (Levels_AddOrder BID (StopPrice order) order (sell_stop s)) s)"

text \<open>
  Modelled from the spec: the entry of a trailing stop order, section 4.4, "as 4.3, plus
  per-order state: a recorded anchor market price at the time the trigger was last set". The
  anchor is the ask-side market price for a buy and the bid-side one for a sell.
\<close>

definition AddTrailingStop :: "Order \<Rightarrow> 'symbol OrderBook \<Rightarrow> 'symbol OrderBook" where
  "AddTrailingStop order s =
     (if IsBuy order
      then (let order = order\<lparr>Anchor := fst (GetMarketPriceAsk s)\<rparr>
            in set_trailing_buy_stop
                 (Levels_AddOrder ASK (StopPrice order) order (trailing_buy_stop s)) s)
      else (let order = order\<lparr>Anchor := fst (GetMarketPriceBid s)\<rparr>
            in set_trailing_sell_stop
                 (Levels_AddOrder BID (StopPrice order) order (trailing_sell_stop s)) s))"

text \<open>
  Modelled from the spec: section 2, "inserted into (2) or (3)/(4) depending on type".
\<close>

definition InsertOrder :: "Order \<Rightarrow> 'symbol OrderBook \<Rightarrow> 'symbol OrderBook" where
  "InsertOrder order s =
     (case Order.Type order of
        MARKET \<Rightarrow> AddLimit order s
      | LIMIT \<Rightarrow> AddLimit order s
      | STOP \<Rightarrow> AddStop order s
      | STOP_LIMIT \<Rightarrow> AddStop order s
      | TRAILING_STOP \<Rightarrow> AddTrailingStop order s
      | TRAILING_STOP_LIMIT \<Rightarrow> AddTrailingStop order s)"

text \<open>
  Modelled from the spec: the removal of an order from the index that holds it, section 3,
  "exclusively held by whichever index currently contains it (exactly one at a time)", by
  \<^verbatim>\<open>DeleteOrder\<close> of section 4.2.
\<close>

definition RemoveOrder :: "Order \<Rightarrow> 'symbol OrderBook \<Rightarrow> 'symbol OrderBook" where
  "RemoveOrder order s =
     (case Order.Type order of
        MARKET \<Rightarrow>
          (if IsBuy order
           then set_bids (Levels_DeleteOrder (Order.Price order) order (bids s)) s
           else set_asks (Levels_DeleteOrder (Order.Price order) order (asks s)) s)
      | LIMIT \<Rightarrow>
          (if IsBuy order
           then set_bids (Levels_DeleteOrder (Order.Price order) order (bids s)) s
           else set_asks (Levels_DeleteOrder (Order.Price order) order (asks s)) s)
      | STOP \<Rightarrow>
          (if IsBuy order
           then set_buy_stop (Levels_DeleteOrder (StopPrice order) order (buy_stop s)) s
           else set_sell_stop (Levels_DeleteOrder (StopPrice order) order (sell_stop s)) s)
      | STOP_LIMIT \<Rightarrow>
          (if IsBuy order
           then set_buy_stop (Levels_DeleteOrder (StopPrice order) order (buy_stop s)) s
           else set_sell_stop (Levels_DeleteOrder (StopPrice order) order (sell_stop s)) s)
      | TRAILING_STOP \<Rightarrow>
          (if IsBuy order
           then set_trailing_buy_stop
                  (Levels_DeleteOrder (StopPrice order) order (trailing_buy_stop s)) s
           else set_trailing_sell_stop
                  (Levels_DeleteOrder (StopPrice order) order (trailing_sell_stop s)) s)
      | TRAILING_STOP_LIMIT \<Rightarrow>
          (if IsBuy order
           then set_trailing_buy_stop
                  (Levels_DeleteOrder (StopPrice order) order (trailing_buy_stop s)) s
           else set_trailing_sell_stop
                  (Levels_DeleteOrder (StopPrice order) order (trailing_sell_stop s)) s))"

text \<open>The orders of an index, level by level, each level in arrival order.\<close>

definition all_orders :: "Levels \<Rightarrow> Order list" where
  "all_orders xs = concat (map OrderList xs)"

text \<open>
  Modelled from the spec: the lookup of an order by its id, section 3, "owner/order id (unique
  within the book)", over the six indices.
\<close>

definition FindOrder :: "u64 \<Rightarrow> 'symbol OrderBook \<Rightarrow> Order option" where
  "FindOrder order_id s =
     List.find (\<lambda>order. Id order = order_id)
       (all_orders (bids s) @ all_orders (asks s)
        @ all_orders (buy_stop s) @ all_orders (sell_stop s)
        @ all_orders (trailing_buy_stop s) @ all_orders (trailing_sell_stop s))"

subsection \<open>Trailing stops\<close>

text \<open>
  Modelled from the spec: the recomputation of one trailing order, section 4.4, "whenever the
  market price moves favorably for a resting trailing order by at least one configured
  trailing step beyond its anchor (ask price falling, for a trailing-buy-stop; bid price
  rising, for a trailing-sell-stop), the order's trigger price is recomputed as
  \<^verbatim>\<open>new_anchor +- trailing_distance\<close>, its anchor is updated to \<^verbatim>\<open>new_anchor\<close> [...]. Orders
  with trailing distance zero never recompute". The trigger of a buy lies above the anchor,
  that of a sell below; the arithmetic is that of unsigned 64-bit values.
\<close>

definition recalculate_buy :: "u64 \<Rightarrow> Order \<Rightarrow> Order" where
  "recalculate_buy market order =
     (if TrailingDistance order \<noteq> 0 \<and> market < Anchor order
         \<and> TrailingStep order \<le> Anchor order - market
      then order\<lparr>StopPrice := market + TrailingDistance order, Anchor := market\<rparr>
      else order)"

definition recalculate_sell :: "u64 \<Rightarrow> Order \<Rightarrow> Order" where
  "recalculate_sell market order =
     (if TrailingDistance order \<noteq> 0 \<and> Anchor order < market
         \<and> TrailingStep order \<le> market - Anchor order
      then order\<lparr>StopPrice := market - TrailingDistance order, Anchor := market\<rparr>
      else order)"

text \<open>
  Modelled from the spec: the recomputation of a trailing index, section 4.4, "the order is
  removed from its old level and reinserted at the new trigger price (a key change, requiring
  full remove+reinsert, not an in-place update)". The orders whose trigger stays keep their
  place in their queue; those whose trigger moves join the queue of their new level behind
  them, in the order in which they were met.
\<close>

definition Levels_Recalculate :: "LevelType \<Rightarrow> (Order \<Rightarrow> Order) \<Rightarrow> Levels \<Rightarrow> Levels" where
  "Levels_Recalculate t f xs =
     (let kept = filter (\<lambda>order. f order = order) (all_orders xs);
          moved = map f (filter (\<lambda>order. f order \<noteq> order) (all_orders xs))
      in foldl (\<lambda>ys order. Levels_AddOrder t (StopPrice order) order ys) [] (kept @ moved))"

text \<open>
  Modelled from the spec: the recomputation of both trailing indices against the current
  market prices, section 4.4.
\<close>

definition RecalculateTrailingStops :: "'symbol OrderBook \<Rightarrow> 'symbol OrderBook" where
  "RecalculateTrailingStops s =
     (let ask = fst (GetMarketPriceAsk s);
          bid = fst (GetMarketPriceBid s);
          s = set_trailing_buy_stop
                (Levels_Recalculate ASK (recalculate_buy ask) (trailing_buy_stop s)) s;
          s = set_trailing_sell_stop
                (Levels_Recalculate BID (recalculate_sell bid) (trailing_sell_stop s)) s
      in s)"

subsection \<open>Activation of conditional orders\<close>

text \<open>
  Modelled from the spec: the conversion of an activated order, section 4.5, "re-submitted as
  live orders (market, or limit at their configured stop-limit price)".
\<close>

definition ActivatedOrder :: "Order \<Rightarrow> Order" where
  "ActivatedOrder order =
     order\<lparr>Order.Type :=
       (case Order.Type order of
          STOP \<Rightarrow> MARKET
        | STOP_LIMIT \<Rightarrow> LIMIT
        | TRAILING_STOP \<Rightarrow> MARKET
        | TRAILING_STOP_LIMIT \<Rightarrow> LIMIT
        | MARKET \<Rightarrow> MARKET
        | LIMIT \<Rightarrow> LIMIT)\<rparr>"

text \<open>
  Modelled from the spec: the triggers, section 4.5, "a buy-stop activates when
  \<^verbatim>\<open>MarketPriceAsk >= trigger\<close>; a sell-stop activates when \<^verbatim>\<open>MarketPriceBid <= trigger\<close>;
  trailing variants use the same tests", applied to the best level of a conditional index:
  the lowest trigger of the buy side, the highest of the sell side.
\<close>

definition buy_triggered :: "u64 \<Rightarrow> LevelNode option \<Rightarrow> bool" where
  "buy_triggered market best =
     (case best of None \<Rightarrow> False | Some level \<Rightarrow> LevelNode.Price level \<le> market)"

definition sell_triggered :: "u64 \<Rightarrow> LevelNode option \<Rightarrow> bool" where
  "sell_triggered market best =
     (case best of None \<Rightarrow> False | Some level \<Rightarrow> market \<le> LevelNode.Price level)"

text \<open>
  Modelled from the spec: the removal of the order to activate from the best level of a
  conditional index, section 4.5, "activated orders are removed from their conditional index"
  and "orders sharing a trigger level activate in FIFO arrival order"; by section 7 an empty
  level or a best pointer that is not the extreme of the index fails fast.
\<close>

definition take_lowest :: "LevelNode option \<Rightarrow> Levels \<Rightarrow> error + Order \<times> Levels" where
  "take_lowest best xs =
     (if best = None \<or> best_lowest xs \<noteq> best then Inl InternalCorruption
      else (case OrderList (hd xs) of
              [] \<Rightarrow> Inl InternalCorruption
            | order # rest \<Rightarrow>
                Inr (order, put_lowest (reduce_head (LeavesQuantity order) (hd xs)) xs)))"

definition take_highest :: "LevelNode option \<Rightarrow> Levels \<Rightarrow> error + Order \<times> Levels" where
  "take_highest best xs =
     (if best = None \<or> best_highest xs \<noteq> best then Inl InternalCorruption
      else (case OrderList (last xs) of
              [] \<Rightarrow> Inl InternalCorruption
            | order # rest \<Rightarrow>
                Inr (order, put_highest (reduce_head (LeavesQuantity order) (last xs)) xs)))"

text \<open>
  Modelled from the spec: the search for an order to activate, section 4.5, "re-evaluate
  pending conditional orders". The result is \<open>None\<close> when "no remaining order in either
  conditional index currently satisfies its trigger", and otherwise the order taken out and
  the book without it.
\<close>

definition NextActivation ::
  "'symbol OrderBook \<Rightarrow> (error + Order \<times> 'symbol OrderBook) option" where
  "NextActivation s =
     (let ask = fst (GetMarketPriceAsk s);
          bid = fst (GetMarketPriceBid s)
      in if buy_triggered ask (best_buy_stop s)
         then Some (case take_lowest (best_buy_stop s) (buy_stop s) of
                      Inl e \<Rightarrow> Inl e
                    | Inr (order, xs) \<Rightarrow> Inr (order, set_buy_stop xs s))
         else if sell_triggered bid (best_sell_stop s)
         then Some (case take_highest (best_sell_stop s) (sell_stop s) of
                      Inl e \<Rightarrow> Inl e
                    | Inr (order, xs) \<Rightarrow> Inr (order, set_sell_stop xs s))
         else if buy_triggered ask (best_trailing_buy_stop s)
         then Some (case take_lowest (best_trailing_buy_stop s) (trailing_buy_stop s) of
                      Inl e \<Rightarrow> Inl e
                    | Inr (order, xs) \<Rightarrow> Inr (order, set_trailing_buy_stop xs s))
         else if sell_triggered bid (best_trailing_sell_stop s)
         then Some (case take_highest (best_trailing_sell_stop s) (trailing_sell_stop s) of
                      Inl e \<Rightarrow> Inl e
                    | Inr (order, xs) \<Rightarrow> Inr (order, set_trailing_sell_stop xs s))
         else None)"

text \<open>The number of orders in the four conditional indices; every activation removes one.\<close>

definition pending_stops :: "'symbol OrderBook \<Rightarrow> nat" where
  "pending_stops s =
     orders_in (buy_stop s) + orders_in (sell_stop s)
     + orders_in (trailing_buy_stop s) + orders_in (trailing_sell_stop s)"

lemma orders_in_foldl_AddOrder:
  "orders_in (foldl (\<lambda>ys order. Levels_AddOrder t (StopPrice order) order ys) acc os)
     = orders_in acc + length os"
  by (induction os arbitrary: acc) (simp_all add: orders_in_AddOrder)

lemma length_all_orders: "length (all_orders xs) = orders_in xs"
  by (induction xs) (simp_all add: all_orders_def)

lemma orders_in_Recalculate: "orders_in (Levels_Recalculate t f xs) = orders_in xs"
proof -
  have "length (filter (\<lambda>order. f order = order) (all_orders xs))
      + length (filter (\<lambda>order. f order \<noteq> order) (all_orders xs)) = length (all_orders xs)"
    by (rule sum_length_filter_compl)
  then show ?thesis
    by (simp add: Levels_Recalculate_def Let_def orders_in_foldl_AddOrder length_all_orders)
qed

lemma Recalculate_frame:
  "bids (RecalculateTrailingStops s) = bids s"
  "asks (RecalculateTrailingStops s) = asks s"
  "best_bid (RecalculateTrailingStops s) = best_bid s"
  "best_ask (RecalculateTrailingStops s) = best_ask s"
  "buy_stop (RecalculateTrailingStops s) = buy_stop s"
  "sell_stop (RecalculateTrailingStops s) = sell_stop s"
  by (simp_all add: RecalculateTrailingStops_def Let_def
      set_trailing_buy_stop_def set_trailing_sell_stop_def)

lemma Recalculate_pending: "pending_stops (RecalculateTrailingStops s) = pending_stops s"
  by (simp add: pending_stops_def Recalculate_frame)
    (simp add: RecalculateTrailingStops_def Let_def
      set_trailing_buy_stop_def set_trailing_sell_stop_def orders_in_Recalculate)

lemma Recalculate_crossed: "crossed (RecalculateTrailingStops s) = crossed s"
  unfolding crossed_def Recalculate_frame ..

lemma reduce_head_all:
  "OrderList level = order # rest \<Longrightarrow>
     (case reduce_head (LeavesQuantity order) level of
        None \<Rightarrow> 0 | Some l \<Rightarrow> length (OrderList l)) = length rest"
  by (simp add: reduce_head_def)

lemma take_lowest_count:
  assumes "take_lowest best xs = Inr (order, ys)"
  shows "Suc (orders_in ys) = orders_in xs"
proof -
  from assms have b: "best_lowest xs = best" "best \<noteq> None"
    by (auto simp: take_lowest_def split: if_splits)
  then have ne: "xs \<noteq> []" by (auto simp: best_lowest_def)
  from assms b obtain rest where ol: "OrderList (hd xs) = order # rest"
    and ys: "ys = put_lowest (reduce_head (LeavesQuantity order) (hd xs)) xs"
    by (auto simp: take_lowest_def split: if_splits list.splits)
  from orders_in_put_lowest [OF ne, of "reduce_head (LeavesQuantity order) (hd xs)"]
    reduce_head_all [OF ol] ol ys
  show ?thesis by simp
qed

lemma take_highest_count:
  assumes "take_highest best xs = Inr (order, ys)"
  shows "Suc (orders_in ys) = orders_in xs"
proof -
  from assms have b: "best_highest xs = best" "best \<noteq> None"
    by (auto simp: take_highest_def split: if_splits)
  then have ne: "xs \<noteq> []" by (auto simp: best_highest_def)
  from assms b obtain rest where ol: "OrderList (last xs) = order # rest"
    and ys: "ys = put_highest (reduce_head (LeavesQuantity order) (last xs)) xs"
    by (auto simp: take_highest_def split: if_splits list.splits)
  from orders_in_put_highest [OF ne, of "reduce_head (LeavesQuantity order) (last xs)"]
    reduce_head_all [OF ol] ol ys
  show ?thesis by simp
qed

lemma NextActivation_step:
  assumes "NextActivation s = Some (Inr (order, s1))"
  shows "Suc (pending_stops s1) = pending_stops s
    \<and> best_bid s1 = best_bid s \<and> best_ask s1 = best_ask s
    \<and> bids s1 = bids s \<and> asks s1 = asks s"
proof -
  let ?ask = "fst (GetMarketPriceAsk s)" and ?bid = "fst (GetMarketPriceBid s)"
  consider (a) "buy_triggered ?ask (best_buy_stop s)"
    | (b) "\<not> buy_triggered ?ask (best_buy_stop s)" "sell_triggered ?bid (best_sell_stop s)"
    | (c) "\<not> buy_triggered ?ask (best_buy_stop s)" "\<not> sell_triggered ?bid (best_sell_stop s)"
        "buy_triggered ?ask (best_trailing_buy_stop s)"
    | (d) "\<not> buy_triggered ?ask (best_buy_stop s)" "\<not> sell_triggered ?bid (best_sell_stop s)"
        "\<not> buy_triggered ?ask (best_trailing_buy_stop s)"
        "sell_triggered ?bid (best_trailing_sell_stop s)"
    | (e) "\<not> buy_triggered ?ask (best_buy_stop s)" "\<not> sell_triggered ?bid (best_sell_stop s)"
        "\<not> buy_triggered ?ask (best_trailing_buy_stop s)"
        "\<not> sell_triggered ?bid (best_trailing_sell_stop s)"
    by blast
  then show ?thesis
  proof cases
    case a
    with assms obtain xs where t: "take_lowest (best_buy_stop s) (buy_stop s) = Inr (order, xs)"
      and s1: "s1 = set_buy_stop xs s"
      by (auto simp: NextActivation_def Let_def split: sum.splits)
    from take_lowest_count [OF t] s1 show ?thesis
      by (simp add: pending_stops_def set_buy_stop_def)
  next
    case b
    with assms obtain xs where t: "take_highest (best_sell_stop s) (sell_stop s) = Inr (order, xs)"
      and s1: "s1 = set_sell_stop xs s"
      by (auto simp: NextActivation_def Let_def split: sum.splits)
    from take_highest_count [OF t] s1 show ?thesis
      by (simp add: pending_stops_def set_sell_stop_def)
  next
    case c
    with assms obtain xs where
      t: "take_lowest (best_trailing_buy_stop s) (trailing_buy_stop s) = Inr (order, xs)"
      and s1: "s1 = set_trailing_buy_stop xs s"
      by (auto simp: NextActivation_def Let_def split: sum.splits)
    from take_lowest_count [OF t] s1 show ?thesis
      by (simp add: pending_stops_def set_trailing_buy_stop_def)
  next
    case d
    with assms obtain xs where
      t: "take_highest (best_trailing_sell_stop s) (trailing_sell_stop s) = Inr (order, xs)"
      and s1: "s1 = set_trailing_sell_stop xs s"
      by (auto simp: NextActivation_def Let_def split: sum.splits)
    from take_highest_count [OF t] s1 show ?thesis
      by (simp add: pending_stops_def set_trailing_sell_stop_def)
  next
    case e
    with assms show ?thesis by (simp add: NextActivation_def Let_def)
  qed
qed

lemma AddLimit_pending: "pending_stops (AddLimit order s) = pending_stops s"
  by (simp add: AddLimit_def pending_stops_def set_bids_def set_asks_def)

lemma InsertOrder_Activated_pending:
  "pending_stops (InsertOrder (ActivatedOrder order) s) = pending_stops s"
  by (cases "Order.Type order") (simp_all add: InsertOrder_def ActivatedOrder_def AddLimit_pending)

lemma MatchPair_pending:
  assumes "MatchPair s = Inr s'"
  shows "pending_stops s' = pending_stops s"
proof -
  from assms obtain xs ys t where
    "s' = UpdateLastPrice t (set_asks ys (set_bids xs s))"
    by (rule MatchPair_Inr)
  then show ?thesis
    by (simp add: pending_stops_def UpdateLastPrice_def set_asks_def set_bids_def)
qed

lemma Match_pending: "Match s = Inr s' \<Longrightarrow> pending_stops s' = pending_stops s"
proof (induction s rule: Match.induct)
  case (1 s)
  show ?case
  proof (cases "crossed s")
    case True
    with "1.prems" Match.simps [of s]
    obtain s1 where m: "MatchPair s = Inr s1" and "Match s1 = Inr s'"
      by (cases "MatchPair s") simp_all
    with "1.IH" True have "pending_stops s' = pending_stops s1" by blast
    with MatchPair_pending [OF m] show ?thesis by simp
  next
    case False
    with "1.prems" Match.simps [of s] show ?thesis by simp
  qed
qed

text \<open>
  Modelled from the spec: the activation cascade, section 4.5, "activated orders are removed
  from their conditional index and re-submitted as live orders [...], re-entering the
  submission path -- which may itself cause further trades and further activations. This
  cascade must run to a fixed point (no remaining order in either conditional index currently
  satisfies its trigger) before any public operation returns." The cascade is total: every
  activation removes an order from the conditional indices, and neither the recomputation of
  the trailing stops nor the matching loop adds one.
\<close>

function Activate :: "'symbol OrderBook \<Rightarrow> error + 'symbol OrderBook" where
  "Activate s =
     (case NextActivation (RecalculateTrailingStops s) of
        None \<Rightarrow> Inr (RecalculateTrailingStops s)
      | Some (Inl e) \<Rightarrow> Inl e
      | Some (Inr (order, s1)) \<Rightarrow>
          (case Match (InsertOrder (ActivatedOrder order) s1) of
             Inl e \<Rightarrow> Inl e
           | Inr s2 \<Rightarrow> Activate s2))"
  by pat_completeness auto
termination
proof (relation "measure pending_stops")
  show "wf (measure pending_stops)" by simp
next
  fix s :: "'symbol OrderBook" and x2 b x y s2
  assume n: "NextActivation (RecalculateTrailingStops s) = Some x2"
    and "x2 = Inr b" and "(x, y) = b"
    and m: "Match (InsertOrder (ActivatedOrder x) y) = Inr s2"
  then have "NextActivation (RecalculateTrailingStops s) = Some (Inr (x, y))" by simp
  from NextActivation_step [OF this] Recalculate_pending [of s]
  have "pending_stops y < pending_stops s" by simp
  with Match_pending [OF m] InsertOrder_Activated_pending [of x y]
  show "(s2, s) \<in> measure pending_stops" by simp
qed

declare Activate.simps [simp del]


subsection \<open>Public operations\<close>

text \<open>
  Modelled from the spec: the end of every public operation, section 4.5, "the internal
  \<^verbatim>\<open>Match\<close> cycle run after every mutation that could create or remove a crossing
  condition", then the activation cascade, "after any trade or top-of-book change".
\<close>

definition Complete :: "'symbol OrderBook \<Rightarrow> error + 'symbol OrderBook" where
  "Complete s = (case Match s of Inl e \<Rightarrow> Inl e | Inr s1 \<Rightarrow> Activate s1)"

text \<open>
  Modelled from the spec: \<^verbatim>\<open>AddOrder\<close>, sections 2 and 7, "order submission ->
  Matching Engine validates -> inserted [...] -> crossing check [...] -> trades emitted ->
  top-of-book change triggers scan", with "validation precedes any mutation": a price or a
  quantity of zero is an invalid order, an id present in the book a duplicate.
\<close>

definition AddOrder :: "Order \<Rightarrow> 'symbol OrderBook \<Rightarrow> error + 'symbol OrderBook" where
  "AddOrder order s =
     (if Order.Price order = 0 \<or> Quantity order = 0 then Inl InvalidOrder
      else if FindOrder (Id order) s \<noteq> None then Inl DuplicateOrder
      else Complete (InsertOrder (order\<lparr>LeavesQuantity := Quantity order\<rparr>) s))"

text \<open>
  Modelled from the spec: \<^verbatim>\<open>CancelOrder\<close>, sections 4.5 and 8, "\<^verbatim>\<open>CancelOrder\<close> on an id
  not present in the book -> order-not-found error, no state change".
\<close>

definition CancelOrder :: "u64 \<Rightarrow> 'symbol OrderBook \<Rightarrow> error + 'symbol OrderBook" where
  "CancelOrder order_id s =
     (case FindOrder order_id s of
        None \<Rightarrow> Inl OrderNotFound
      | Some order \<Rightarrow> Complete (RemoveOrder order s))"

text \<open>
  Modelled from the spec: \<^verbatim>\<open>ModifyOrder\<close>, section 4.5, "price/quantity change on a
  resting order; re-derives level membership": the order leaves its level and enters again
  with the new price and quantity.
\<close>

definition ModifyOrder ::
  "u64 \<Rightarrow> u64 \<Rightarrow> u64 \<Rightarrow> 'symbol OrderBook \<Rightarrow> error + 'symbol OrderBook" where
  "ModifyOrder order_id new_price new_quantity s =
     (case FindOrder order_id s of
        None \<Rightarrow> Inl OrderNotFound
      | Some order \<Rightarrow>
          if new_price = 0 \<or> new_quantity = 0 then Inl InvalidOrder
          else Complete
                 (InsertOrder
                    (order\<lparr>Order.Price := new_price, Quantity := new_quantity,
                           LeavesQuantity := new_quantity\<rparr>)
                    (RemoveOrder order s)))"


subsection \<open>Invariants of the book\<close>

text \<open>
  Modelled from the spec: the invariant of a price level, section 3, "a level exists in its
  index iff its queue is non-empty -- levels are created on first insert and destroyed on last
  removal, never left empty".
\<close>

definition Levels_intact :: "Levels \<Rightarrow> bool" where
  "Levels_intact xs \<longleftrightarrow> list_all (\<lambda>level. OrderList level \<noteq> []) xs"

text \<open>
  Modelled from the spec: the invariants of the book, section 3, "\<^verbatim>\<open>best_bid\<close> == the
  maximum-price level in the bid index, or absent if empty; \<^verbatim>\<open>best_ask\<close> == the
  minimum-price level in the ask index, or absent if empty", the same for the best pointers of
  the four conditional indices, and no empty level in any index.
\<close>

definition OrderBook_intact :: "'symbol OrderBook \<Rightarrow> bool" where
  "OrderBook_intact s \<longleftrightarrow>
     best_bid s = best_highest (bids s) \<and> best_ask s = best_lowest (asks s)
     \<and> best_buy_stop s = best_lowest (buy_stop s)
     \<and> best_sell_stop s = best_highest (sell_stop s)
     \<and> best_trailing_buy_stop s = best_lowest (trailing_buy_stop s)
     \<and> best_trailing_sell_stop s = best_highest (trailing_sell_stop s)
     \<and> Levels_intact (bids s) \<and> Levels_intact (asks s)
     \<and> Levels_intact (buy_stop s) \<and> Levels_intact (sell_stop s)
     \<and> Levels_intact (trailing_buy_stop s) \<and> Levels_intact (trailing_sell_stop s)"

subsection \<open>Sequences of public operations\<close>




subsection \<open>The key order of an index\<close>

text \<open>
  Modelled from the spec: an index as section 4.2 has it, an "ordered container keyed by
  price", whose nodes are all of one style. The six indices are containers of the one type
  \<^verbatim>\<open>Levels\<close>, which the constructor of the source file builds in the same way: the order
  of the keys is the same in all of them, ascending along the forward traversal.
\<close>

definition Levels_keyed :: "LevelType \<Rightarrow> Levels \<Rightarrow> bool" where
  "Levels_keyed t xs \<longleftrightarrow>
     sorted_wrt (<) (map LevelNode.Price xs) \<and> list_all (\<lambda>level. LevelNode.Type level = t) xs"


section \<open>Best-to-worst order, as the specification words it\<close>

text \<open>
  "The next level in best-to-worst order": on a side where the higher price is better, the
  level of the greatest price below that of \<open>x\<close>; on a side where the lower price is
  better, the level of the least price above. The third argument is the candidate answer,
  \<open>None\<close> when no worse level exists.
\<close>

definition next_lower_level :: "Levels \<Rightarrow> LevelNode \<Rightarrow> LevelNode option \<Rightarrow> bool" where
  "next_lower_level xs x r \<longleftrightarrow>
     (case r of
        None \<Rightarrow> (\<forall>n\<in>set xs. \<not> LevelNode.Price n < LevelNode.Price x)
      | Some m \<Rightarrow> m \<in> set xs \<and> LevelNode.Price m < LevelNode.Price x
          \<and> (\<forall>n\<in>set xs. LevelNode.Price n < LevelNode.Price x
                \<longrightarrow> LevelNode.Price n \<le> LevelNode.Price m))"

definition next_higher_level :: "Levels \<Rightarrow> LevelNode \<Rightarrow> LevelNode option \<Rightarrow> bool" where
  "next_higher_level xs x r \<longleftrightarrow>
     (case r of
        None \<Rightarrow> (\<forall>n\<in>set xs. \<not> LevelNode.Price x < LevelNode.Price n)
      | Some m \<Rightarrow> m \<in> set xs \<and> LevelNode.Price x < LevelNode.Price m
          \<and> (\<forall>n\<in>set xs. LevelNode.Price x < LevelNode.Price n
                \<longrightarrow> LevelNode.Price m \<le> LevelNode.Price n))"

section \<open>A concrete book\<close>

text \<open>
  A book with three bid levels, two ask levels, two levels in each stop index and one in each
  trailing stop index, every level holding one order of ten units.
\<close>

definition example_order :: "u64 \<Rightarrow> OrderSide \<Rightarrow> OrderType \<Rightarrow> u64 \<Rightarrow> u64 \<Rightarrow> Order" where
  "example_order i sd ty p sp =
     \<lparr> Id = i, Side = sd, Order.Type = ty, Order.Price = p, StopPrice = sp,
       TrailingDistance = 0, TrailingStep = 0, Quantity = 10, LeavesQuantity = 10,
       Sequence = unat i, Anchor = 0 \<rparr>"

definition example_level :: "LevelType \<Rightarrow> u64 \<Rightarrow> Order \<Rightarrow> LevelNode" where
  "example_level t p order =
     \<lparr> Type = t, Price = p, TotalVolume = LeavesQuantity order, OrderList = [order] \<rparr>"

definition bid_90 :: LevelNode where
  "bid_90 = example_level BID 90 (example_order 1 BUY LIMIT 90 0)"

definition bid_95 :: LevelNode where
  "bid_95 = example_level BID 95 (example_order 2 BUY LIMIT 95 0)"

definition bid_100 :: LevelNode where
  "bid_100 = example_level BID 100 (example_order 3 BUY LIMIT 100 0)"

definition ask_101 :: LevelNode where
  "ask_101 = example_level ASK 101 (example_order 4 SELL LIMIT 101 0)"

definition ask_105 :: LevelNode where
  "ask_105 = example_level ASK 105 (example_order 5 SELL LIMIT 105 0)"

definition buy_stop_110 :: LevelNode where
  "buy_stop_110 = example_level ASK 110 (example_order 6 BUY STOP 110 110)"

definition buy_stop_120 :: LevelNode where
  "buy_stop_120 = example_level ASK 120 (example_order 7 BUY STOP 120 120)"

definition sell_stop_80 :: LevelNode where
  "sell_stop_80 = example_level BID 80 (example_order 8 SELL STOP 80 80)"

definition sell_stop_85 :: LevelNode where
  "sell_stop_85 = example_level BID 85 (example_order 9 SELL STOP 85 85)"

definition trailing_buy_stop_130 :: LevelNode where
  "trailing_buy_stop_130 = example_level ASK 130 (example_order 10 BUY TRAILING_STOP 130 130)"

definition trailing_sell_stop_70 :: LevelNode where
  "trailing_sell_stop_70 = example_level BID 70 (example_order 11 SELL TRAILING_STOP 70 70)"

definition example_book :: "nat OrderBook" where
  "example_book =
     \<lparr> symbol = 1,
       best_bid = Some bid_100,
       best_ask = Some ask_101,
       bids = [bid_90, bid_95, bid_100],
       asks = [ask_101, ask_105],
       best_buy_stop = Some buy_stop_110,
       best_sell_stop = Some sell_stop_85,
       buy_stop = [buy_stop_110, buy_stop_120],
       sell_stop = [sell_stop_80, sell_stop_85],
       best_trailing_buy_stop = Some trailing_buy_stop_130,
       best_trailing_sell_stop = Some trailing_sell_stop_70,
       trailing_buy_stop = [trailing_buy_stop_130],
       trailing_sell_stop = [trailing_sell_stop_70],
       last_bid_price = 100,
       last_ask_price = 101,
       trailing_bid_price = 0,
       trailing_ask_price = UINT64_MAX \<rparr>"

text \<open>
  A buy of twelve units at 103 entering the book: it takes the ten units offered at 101 and
  rests with two units.
\<close>

definition buy_103 :: Order where
  "buy_103 = (example_order 20 BUY LIMIT 103 0)\<lparr>Quantity := 12\<rparr>"

definition bid_103 :: LevelNode where
  "bid_103 = \<lparr> Type = BID, Price = 103, TotalVolume = 2,
                OrderList = [buy_103\<lparr>LeavesQuantity := 2\<rparr>] \<rparr>"

definition example_book_added :: "nat OrderBook" where
  "example_book_added =
     example_book\<lparr>best_bid := Some bid_103, best_ask := Some ask_105,
                  bids := [bid_90, bid_95, bid_100, bid_103], asks := [ask_105],
                  last_bid_price := 103\<rparr>"

text \<open>The book after the order 3, the bid at 100, was cancelled.\<close>

definition example_book_cancelled :: "nat OrderBook" where
  "example_book_cancelled =
     example_book\<lparr>best_bid := Some bid_95, bids := [bid_90, bid_95]\<rparr>"

text \<open>
  The book after the order 3 was modified to five units at 102: it takes five of the ten
  units offered at 101.
\<close>

definition ask_101_reduced :: LevelNode where
  "ask_101_reduced = \<lparr> Type = ASK, Price = 101, TotalVolume = 5,
     OrderList = [(example_order 4 SELL LIMIT 101 0)\<lparr>LeavesQuantity := 5\<rparr>] \<rparr>"

definition example_book_modified :: "nat OrderBook" where
  "example_book_modified =
     example_book\<lparr>best_bid := Some bid_95, best_ask := Some ask_101_reduced,
                  bids := [bid_90, bid_95], asks := [ask_101_reduced, ask_105]\<rparr>"

lemmas example_defs =
  example_book_def example_level_def example_order_def
  bid_90_def bid_95_def bid_100_def ask_101_def ask_105_def
  buy_stop_110_def buy_stop_120_def sell_stop_80_def sell_stop_85_def
  trailing_buy_stop_130_def trailing_sell_stop_70_def










section \<open>Facts about the arithmetic and the container\<close>

lemma unat_UINT64_MAX: "unat UINT64_MAX = 2 ^ 64 - 1"
  by (simp add: UINT64_MAX_def)

lemma std_max_eq: "std_max a b = max a b"
  by (auto simp: std_max_def max_def)

lemma std_min_eq: "std_min a b = min a b"
  by (auto simp: std_min_def min_def)

lemma unat_std_max: "unat (std_max a b) = max (unat a) (unat b)"
  by (auto simp: std_max_def max_def word_less_nat_alt)

lemma unat_std_min: "unat (std_min a b) = min (unat a) (unat b)"
  by (auto simp: std_min_def min_def word_less_nat_alt)

lemma Levels_find_absent:
  "\<forall>n\<in>set xs. LevelNode.Price n \<noteq> p \<Longrightarrow> Levels_find xs (LevelNode_make t p) = None"
  by (auto simp: Levels_find_def find_None_iff level_less_def LevelNode_make_def)

lemma Levels_find_present:
  "Levels_find xs (LevelNode_make t p) = Some n \<Longrightarrow> n \<in> set xs \<and> LevelNode.Price n = p"
  by (auto simp: Levels_find_def find_Some_iff level_less_def LevelNode_make_def)

lemma node_after_sorted_wrt:
  assumes "sorted_wrt R xs" and "x \<in> set xs"
    and irrefl: "\<And>a. \<not> R a a" and asym: "\<And>a b. R a b \<Longrightarrow> \<not> R b a"
  shows "case node_after xs x of
           None \<Rightarrow> (\<forall>n\<in>set xs. \<not> R x n)
         | Some m \<Rightarrow> m \<in> set xs \<and> R x m \<and> (\<forall>n\<in>set xs. R x n \<longrightarrow> n = m \<or> R m n)"
  using assms(1,2)
proof (induction xs)
  case Nil
  then show ?case by simp
next
  case (Cons y ys)
  show ?case
  proof (cases "y = x")
    case True
    then show ?thesis
      using Cons.prems irrefl by (cases ys) auto
  next
    case False
    with Cons.prems have x_in: "x \<in> set ys" and sorted_ys: "sorted_wrt R ys"
      and "R y x" by auto
    then have "\<not> R x y" using asym by blast
    with Cons.IH [OF sorted_ys x_in] False show ?thesis
      by (auto split: option.splits)
  qed
qed

lemma node_after_ascending:
  assumes "Levels_ordered xs" and "x \<in> set xs"
  shows "next_higher_level xs x (node_after xs x)"
proof -
  have "sorted_wrt level_less xs" using assms(1) by (simp add: Levels_ordered_def)
  from node_after_sorted_wrt [OF this assms(2), unfolded level_less_def]
  show ?thesis
    unfolding next_higher_level_def by (fastforce split: option.splits)
qed

lemma node_after_descending:
  assumes "Levels_ordered xs" and "x \<in> set xs"
  shows "next_lower_level xs x (node_after (rev xs) x)"
proof -
  have "sorted_wrt (\<lambda>a b. level_less b a) (rev xs)"
    using assms(1) by (simp add: Levels_ordered_def sorted_wrt_rev)
  moreover have "x \<in> set (rev xs)" using assms(2) by simp
  ultimately have "case node_after (rev xs) x of
           None \<Rightarrow> (\<forall>n\<in>set (rev xs). \<not> level_less n x)
         | Some m \<Rightarrow> m \<in> set (rev xs) \<and> level_less m x
             \<and> (\<forall>n\<in>set (rev xs). level_less n x \<longrightarrow> n = m \<or> level_less n m)"
    by (rule node_after_sorted_wrt) (auto simp: level_less_def)
  then show ?thesis
    unfolding next_lower_level_def level_less_def by (fastforce split: option.splits)
qed

section \<open>The market price queries\<close>

text \<open>
  C1. For every book, \<^verbatim>\<open>GetMarketPriceBid\<close> returns the maximum of the last traded bid-side
  price and the price of the best bid level, an absent best bid counting as 0. The maximum is
  that of the unsigned values.
\<close>

theorem GetMarketPriceBid_max:
  "fst (GetMarketPriceBid s) =
     max (last_bid_price s)
         (case best_bid s of None \<Rightarrow> 0 | Some level \<Rightarrow> LevelNode.Price level)
   \<and> unat (fst (GetMarketPriceBid s)) =
     max (unat (last_bid_price s))
         (case best_bid s of None \<Rightarrow> 0 | Some level \<Rightarrow> unat (LevelNode.Price level))"
proof
  show "fst (GetMarketPriceBid s) =
     max (last_bid_price s)
         (case best_bid s of None \<Rightarrow> 0 | Some level \<Rightarrow> LevelNode.Price level)"
    by (simp add: GetMarketPriceBid_def std_max_eq split: option.split)
  show "unat (fst (GetMarketPriceBid s)) =
     max (unat (last_bid_price s))
         (case best_bid s of None \<Rightarrow> 0 | Some level \<Rightarrow> unat (LevelNode.Price level))"
    by (simp add: GetMarketPriceBid_def unat_std_max split: option.split)
qed

text \<open>
  C2. For every book, \<^verbatim>\<open>GetMarketPriceAsk\<close> returns the minimum of the last traded ask-side
  price and the price of the best ask level, an absent best ask counting as the greatest
  unsigned 64-bit value, \<open>2 ^ 64 - 1\<close>.
\<close>

theorem GetMarketPriceAsk_min:
  "fst (GetMarketPriceAsk s) =
     min (last_ask_price s)
         (case best_ask s of None \<Rightarrow> UINT64_MAX | Some level \<Rightarrow> LevelNode.Price level)
   \<and> unat (fst (GetMarketPriceAsk s)) =
     min (unat (last_ask_price s))
         (case best_ask s of None \<Rightarrow> 2 ^ 64 - 1 | Some level \<Rightarrow> unat (LevelNode.Price level))"
proof
  show "fst (GetMarketPriceAsk s) =
     min (last_ask_price s)
         (case best_ask s of None \<Rightarrow> UINT64_MAX | Some level \<Rightarrow> LevelNode.Price level)"
    by (simp add: GetMarketPriceAsk_def std_min_eq split: option.split)
  show "unat (fst (GetMarketPriceAsk s)) =
     min (unat (last_ask_price s))
         (case best_ask s of None \<Rightarrow> 2 ^ 64 - 1 | Some level \<Rightarrow> unat (LevelNode.Price level))"
    by (simp add: GetMarketPriceAsk_def unat_std_min unat_UINT64_MAX split: option.split)
qed

section \<open>The last traded prices\<close>

text \<open>
  C4. \<^verbatim>\<open>UpdateLastPrice(order)\<close> sets the bid-side last price to the price of the order when
  the order is a buy, and the ask-side last price when it is a sell; the last price of the
  opposite side keeps its value, and so does every other field of the book: the book after
  the call and the book before it agree once both last prices are overwritten.
\<close>

theorem UpdateLastPrice_frame:
  "(Side order = BUY \<longrightarrow>
      last_bid_price (UpdateLastPrice order s) = Order.Price order
      \<and> last_ask_price (UpdateLastPrice order s) = last_ask_price s)
   \<and> (Side order = SELL \<longrightarrow>
      last_ask_price (UpdateLastPrice order s) = Order.Price order
      \<and> last_bid_price (UpdateLastPrice order s) = last_bid_price s)
   \<and> (UpdateLastPrice order s)\<lparr>last_bid_price := x, last_ask_price := y\<rparr>
       = s\<lparr>last_bid_price := x, last_ask_price := y\<rparr>"
  by (cases "Side order") (simp_all add: UpdateLastPrice_def IsBuy_def)

theorem UpdateLastPrice_frame_witness:
  "Side (example_order 12 BUY LIMIT 99 0) = BUY
   \<and> last_bid_price (UpdateLastPrice (example_order 12 BUY LIMIT 99 0) example_book) = 99
   \<and> last_ask_price (UpdateLastPrice (example_order 12 BUY LIMIT 99 0) example_book) = 101
   \<and> Side (example_order 13 SELL LIMIT 102 0) = SELL
   \<and> last_ask_price (UpdateLastPrice (example_order 13 SELL LIMIT 102 0) example_book) = 102
   \<and> last_bid_price (UpdateLastPrice (example_order 13 SELL LIMIT 102 0) example_book) = 100"
  using UpdateLastPrice_frame [of "example_order 12 BUY LIMIT 99 0" example_book 0 0]
    UpdateLastPrice_frame [of "example_order 13 SELL LIMIT 102 0" example_book 0 0]
  by (simp add: example_book_def example_order_def)

section \<open>The level traversals\<close>

lemma example_book_ordered:
  "Levels_ordered (bids example_book)" "Levels_ordered (asks example_book)"
  "Levels_ordered (buy_stop example_book)" "Levels_ordered (sell_stop example_book)"
  by (simp_all add: example_defs Levels_ordered_def level_less_def)

text \<open>
  C5. For a level of the bid index, \<^verbatim>\<open>GetNextLevel\<close> steps backwards through the bid
  index and returns the level of the greatest price below; for a level of the ask index it
  steps forwards through the ask index and returns the level of the least price above. In
  both cases that is the next worse level of the side, and null when there is none.
\<close>

theorem GetNextLevel_best_to_worst:
  "(IsBid level \<and> level \<in> set (bids s) \<and> Levels_ordered (bids s) \<longrightarrow>
      fst (GetNextLevel level s) = node_after (rev (bids s)) level
      \<and> next_lower_level (bids s) level (fst (GetNextLevel level s)))
   \<and> (\<not> IsBid level \<and> level \<in> set (asks s) \<and> Levels_ordered (asks s) \<longrightarrow>
      fst (GetNextLevel level s) = node_after (asks s) level
      \<and> next_higher_level (asks s) level (fst (GetNextLevel level s)))"
  by (simp add: GetNextLevel_def node_after_ascending node_after_descending)

theorem GetNextLevel_best_to_worst_witness:
  "IsBid bid_95 \<and> bid_95 \<in> set (bids example_book) \<and> Levels_ordered (bids example_book)
   \<and> fst (GetNextLevel bid_95 example_book) = Some bid_90
   \<and> \<not> IsBid ask_101 \<and> ask_101 \<in> set (asks example_book)
   \<and> Levels_ordered (asks example_book)
   \<and> fst (GetNextLevel ask_101 example_book) = Some ask_105"
proof -
  have b: "IsBid bid_95 \<and> bid_95 \<in> set (bids example_book)
      \<and> Levels_ordered (bids example_book)"
    by (simp add: example_book_ordered) (simp add: example_defs IsBid_def)
  have a: "\<not> IsBid ask_101 \<and> ask_101 \<in> set (asks example_book)
      \<and> Levels_ordered (asks example_book)"
    by (simp add: example_book_ordered) (simp add: example_defs IsBid_def)
  have nb: "node_after (rev (bids example_book)) bid_95 = Some bid_90"
    by (simp add: example_defs)
  have na: "node_after (asks example_book) ask_101 = Some ask_105"
    by (simp add: example_defs)
  from GetNextLevel_best_to_worst [of bid_95 example_book] b nb
  have rb: "fst (GetNextLevel bid_95 example_book) = Some bid_90"
    by metis
  from GetNextLevel_best_to_worst [of ask_101 example_book] a na
  have ra: "fst (GetNextLevel ask_101 example_book) = Some ask_105"
    by metis
  from a b ra rb show ?thesis by blast
qed

section \<open>The exact-price queries\<close>

text \<open>
  C7. Each of the six exact-price queries returns the null pointer when its index holds no
  level of the price asked for. The result of a query is a level or null; there is no error
  value, the methods being \<^verbatim>\<open>noexcept\<close> and without a failing branch.
\<close>

theorem exact_price_queries_absent:
  "((\<forall>n\<in>set (bids s). LevelNode.Price n \<noteq> p) \<longrightarrow> fst (GetBid p s) = None)
   \<and> ((\<forall>n\<in>set (asks s). LevelNode.Price n \<noteq> p) \<longrightarrow> fst (GetAsk p s) = None)
   \<and> ((\<forall>n\<in>set (buy_stop s). LevelNode.Price n \<noteq> p) \<longrightarrow> fst (GetBuyStopLevel p s) = None)
   \<and> ((\<forall>n\<in>set (sell_stop s). LevelNode.Price n \<noteq> p)
        \<longrightarrow> fst (GetSellStopLevel p s) = None)
   \<and> ((\<forall>n\<in>set (trailing_buy_stop s). LevelNode.Price n \<noteq> p)
        \<longrightarrow> fst (GetTrailingBuyStopLevel p s) = None)
   \<and> ((\<forall>n\<in>set (trailing_sell_stop s). LevelNode.Price n \<noteq> p)
        \<longrightarrow> fst (GetTrailingSellStopLevel p s) = None)"
  by (simp add: GetBid_def GetAsk_def GetBuyStopLevel_def GetSellStopLevel_def
      GetTrailingBuyStopLevel_def GetTrailingSellStopLevel_def Levels_find_absent Levels_end_def)

theorem exact_price_queries_absent_witness:
  "fst (GetBid 97 example_book) = None
   \<and> fst (GetAsk 97 example_book) = None
   \<and> fst (GetBuyStopLevel 97 example_book) = None
   \<and> fst (GetSellStopLevel 97 example_book) = None
   \<and> fst (GetTrailingBuyStopLevel 97 example_book) = None
   \<and> fst (GetTrailingSellStopLevel 97 example_book) = None"
proof -
  have h: "(\<forall>n\<in>set (bids example_book). LevelNode.Price n \<noteq> 97)
      \<and> (\<forall>n\<in>set (asks example_book). LevelNode.Price n \<noteq> 97)
      \<and> (\<forall>n\<in>set (buy_stop example_book). LevelNode.Price n \<noteq> 97)
      \<and> (\<forall>n\<in>set (sell_stop example_book). LevelNode.Price n \<noteq> 97)
      \<and> (\<forall>n\<in>set (trailing_buy_stop example_book). LevelNode.Price n \<noteq> 97)
      \<and> (\<forall>n\<in>set (trailing_sell_stop example_book). LevelNode.Price n \<noteq> 97)"
    by (simp add: example_defs)
  with exact_price_queries_absent [of example_book 97] show ?thesis by blast
qed

text \<open>
  A query for a price that is present returns a level of that price, taken from the index.
\<close>

lemma GetBid_present:
  "fst (GetBid p s) = Some n \<Longrightarrow> n \<in> set (bids s) \<and> LevelNode.Price n = p"
  by (auto simp: GetBid_def Levels_end_def Let_def split: if_splits dest: Levels_find_present)

lemma GetAsk_present:
  "fst (GetAsk p s) = Some n \<Longrightarrow> n \<in> set (asks s) \<and> LevelNode.Price n = p"
  by (auto simp: GetAsk_def Levels_end_def Let_def split: if_splits dest: Levels_find_present)

section \<open>The constructor\<close>

text \<open>
  C8. A new book holds the sentinels of "no trade yet": the last traded bid-side price is 0,
  the last traded ask-side price is \<open>2 ^ 64 - 1\<close>, the six best pointers are null; so the
  bid-side market price of a new book is 0 and its ask-side market price is \<open>2 ^ 64 - 1\<close>.
\<close>

theorem OrderBook_new_sentinels:
  "last_bid_price (OrderBook_new sy) = 0
   \<and> unat (last_ask_price (OrderBook_new sy)) = 2 ^ 64 - 1
   \<and> best_bid (OrderBook_new sy) = None
   \<and> best_ask (OrderBook_new sy) = None
   \<and> best_buy_stop (OrderBook_new sy) = None
   \<and> best_sell_stop (OrderBook_new sy) = None
   \<and> best_trailing_buy_stop (OrderBook_new sy) = None
   \<and> best_trailing_sell_stop (OrderBook_new sy) = None
   \<and> fst (GetMarketPriceBid (OrderBook_new sy)) = 0
   \<and> unat (fst (GetMarketPriceAsk (OrderBook_new sy))) = 2 ^ 64 - 1"
  by (simp add: OrderBook_new_def GetMarketPriceBid_def GetMarketPriceAsk_def
      std_max_def std_min_def unat_UINT64_MAX)

section \<open>Queries leave the book as it is\<close>

text \<open>
  C9. Each of the six exact-price queries and of the two market price queries returns the
  book it was called on, and a second call on the book after the first returns the same
  result as the first.
\<close>

theorem queries_preserve_state:
  "snd (GetBid p s) = s \<and> fst (GetBid p (snd (GetBid p s))) = fst (GetBid p s)
   \<and> snd (GetAsk p s) = s \<and> fst (GetAsk p (snd (GetAsk p s))) = fst (GetAsk p s)
   \<and> snd (GetBuyStopLevel p s) = s
   \<and> fst (GetBuyStopLevel p (snd (GetBuyStopLevel p s))) = fst (GetBuyStopLevel p s)
   \<and> snd (GetSellStopLevel p s) = s
   \<and> fst (GetSellStopLevel p (snd (GetSellStopLevel p s))) = fst (GetSellStopLevel p s)
   \<and> snd (GetTrailingBuyStopLevel p s) = s
   \<and> fst (GetTrailingBuyStopLevel p (snd (GetTrailingBuyStopLevel p s)))
       = fst (GetTrailingBuyStopLevel p s)
   \<and> snd (GetTrailingSellStopLevel p s) = s
   \<and> fst (GetTrailingSellStopLevel p (snd (GetTrailingSellStopLevel p s)))
       = fst (GetTrailingSellStopLevel p s)
   \<and> snd (GetMarketPriceBid s) = s
   \<and> fst (GetMarketPriceBid (snd (GetMarketPriceBid s))) = fst (GetMarketPriceBid s)
   \<and> snd (GetMarketPriceAsk s) = s
   \<and> fst (GetMarketPriceAsk (snd (GetMarketPriceAsk s))) = fst (GetMarketPriceAsk s)"
  by (simp add: GetBid_def GetAsk_def GetBuyStopLevel_def GetSellStopLevel_def
      GetTrailingBuyStopLevel_def GetTrailingSellStopLevel_def
      GetMarketPriceBid_def GetMarketPriceAsk_def Let_def)

section \<open>No crossing after a public operation\<close>

lemma Match_uncrossed: "Match s = Inr s' \<Longrightarrow> \<not> crossed s'"
proof (induction s rule: Match.induct)
  case (1 s)
  show ?case
  proof (cases "crossed s")
    case True
    with "1.prems" Match.simps [of s]
    obtain s1 where "MatchPair s = Inr s1" and "Match s1 = Inr s'"
      by (cases "MatchPair s") simp_all
    with "1.IH" True show ?thesis by blast
  next
    case False
    with "1.prems" Match.simps [of s] show ?thesis by simp
  qed
qed

lemma Activate_uncrossed: "\<not> crossed s \<Longrightarrow> Activate s = Inr s' \<Longrightarrow> \<not> crossed s'"
proof (induction s rule: Activate.induct)
  case (1 s)
  let ?s0 = "RecalculateTrailingStops s"
  show ?case
  proof (cases "NextActivation ?s0")
    case None
    with "1.prems"(2) Activate.simps [of s] have "s' = ?s0" by simp
    with "1.prems"(1) show ?thesis by (simp add: Recalculate_crossed)
  next
    case (Some r)
    show ?thesis
    proof (cases r)
      case (Inl e)
      with Some "1.prems"(2) Activate.simps [of s] show ?thesis by simp
    next
      case (Inr p)
      obtain order s1 where p: "p = (order, s1)" by (cases p)
      with Some Inr "1.prems"(2) Activate.simps [of s]
      obtain s2 where m: "Match (InsertOrder (ActivatedOrder order) s1) = Inr s2"
        and a: "Activate s2 = Inr s'"
        by (cases "Match (InsertOrder (ActivatedOrder order) s1)") simp_all
      from Match_uncrossed [OF m] have "\<not> crossed s2" .
      with "1.IH" [OF Some Inr p [symmetric] m] a show ?thesis by blast
    qed
  qed
qed

lemma Complete_uncrossed: "Complete s = Inr s' \<Longrightarrow> \<not> crossed s'"
proof -
  assume c: "Complete s = Inr s'"
  then obtain s1 where m: "Match s = Inr s1" and a: "Activate s1 = Inr s'"
    by (cases "Match s") (simp_all add: Complete_def)
  from Match_uncrossed [OF m] a show ?thesis by (rule Activate_uncrossed)
qed

lemma OrderBook_new_uncrossed: "\<not> crossed (OrderBook_new sy)"
  by (simp add: crossed_def OrderBook_new_def)

text \<open>
  C3. After a completed public operation, \<^verbatim>\<open>AddOrder\<close>, \<^verbatim>\<open>CancelOrder\<close> or
  \<^verbatim>\<open>ModifyOrder\<close> with its matching and its activation cascade, the book is not crossed:
  when both a best bid and a best ask exist, the price of the best bid is below the price of
  the best ask. The operations are those written from the specification.
\<close>

theorem no_crossing_after_mutation:
  assumes "AddOrder order s = Inr s' \<or> CancelOrder order_id s = Inr s'
    \<or> ModifyOrder order_id new_price new_quantity s = Inr s'"
    and "best_bid s' = Some b" and "best_ask s' = Some a"
  shows "LevelNode.Price b < LevelNode.Price a"
proof -
  from assms(1) obtain t where "Complete t = Inr s'"
    by (auto simp: AddOrder_def CancelOrder_def ModifyOrder_def
        split: if_splits option.splits)
  then have "\<not> crossed s'" by (rule Complete_uncrossed)
  with assms(2,3) show ?thesis by (simp add: crossed_def)
qed

lemmas engine_defs =
  AddOrder_def CancelOrder_def ModifyOrder_def Complete_def InsertOrder_def RemoveOrder_def
  AddLimit_def FindOrder_def all_orders_def level_remove_def
  IsBuy_def set_bids_def set_asks_def best_highest_def best_lowest_def
  new_level_def level_append_def LevelNode_make_def crossed_def MatchPair_def
  std_min_def std_max_def reduce_head_def put_highest_def put_lowest_def UpdateLastPrice_def
  RecalculateTrailingStops_def Levels_Recalculate_def recalculate_buy_def recalculate_sell_def
  set_trailing_buy_stop_def set_trailing_sell_stop_def GetMarketPriceAsk_def
  GetMarketPriceBid_def NextActivation_def buy_triggered_def sell_triggered_def

lemma AddOrder_example: "AddOrder buy_103 example_book = Inr example_book_added"
  by (simp add: engine_defs Match.simps Activate.simps example_defs buy_103_def bid_103_def
      example_book_added_def Let_def)

lemma CancelOrder_example: "CancelOrder 3 example_book = Inr example_book_cancelled"
  by (simp add: engine_defs Match.simps Activate.simps example_defs
      example_book_cancelled_def Let_def)

lemma ModifyOrder_example: "ModifyOrder 3 102 5 example_book = Inr example_book_modified"
  by (simp add: engine_defs Match.simps Activate.simps example_defs ask_101_reduced_def
      example_book_modified_def Let_def)

theorem no_crossing_after_mutation_witness:
  "AddOrder buy_103 example_book = Inr example_book_added
   \<and> best_bid example_book_added = Some bid_103
   \<and> best_ask example_book_added = Some ask_105
   \<and> LevelNode.Price bid_103 < LevelNode.Price ask_105
   \<and> CancelOrder 3 example_book = Inr example_book_cancelled
   \<and> best_bid example_book_cancelled = Some bid_95
   \<and> best_ask example_book_cancelled = Some ask_101
   \<and> LevelNode.Price bid_95 < LevelNode.Price ask_101
   \<and> ModifyOrder 3 102 5 example_book = Inr example_book_modified
   \<and> best_bid example_book_modified = Some bid_95
   \<and> best_ask example_book_modified = Some ask_101_reduced
   \<and> LevelNode.Price bid_95 < LevelNode.Price ask_101_reduced"
proof -
  have b1: "best_bid example_book_added = Some bid_103"
    and a1: "best_ask example_book_added = Some ask_105"
    by (simp_all add: example_book_added_def)
  have b2: "best_bid example_book_cancelled = Some bid_95"
    and a2: "best_ask example_book_cancelled = Some ask_101"
    by (simp_all add: example_book_cancelled_def example_book_def)
  have b3: "best_bid example_book_modified = Some bid_95"
    and a3: "best_ask example_book_modified = Some ask_101_reduced"
    by (simp_all add: example_book_modified_def)
  from AddOrder_example
  have "LevelNode.Price bid_103 < LevelNode.Price ask_105"
    by (rule no_crossing_after_mutation [OF disjI1 b1 a1])
  moreover from CancelOrder_example
  have "LevelNode.Price bid_95 < LevelNode.Price ask_101"
    by (rule no_crossing_after_mutation [OF disjI2 [OF disjI1] b2 a2])
  moreover from ModifyOrder_example
  have "LevelNode.Price bid_95 < LevelNode.Price ask_101_reduced"
    by (rule no_crossing_after_mutation [OF disjI2 [OF disjI2] b3 a3])
  ultimately show ?thesis
    using AddOrder_example CancelOrder_example ModifyOrder_example b1 a1 b2 a2 b3 a3
    by blast
qed

section \<open>Public operations complete on an intact book\<close>

text \<open>
  On a book that satisfies the invariants of section 3, no operation of the engine fails fast:
  a public operation returns one of the business errors of section 7, or completes with a book
  that satisfies the invariants again and is not crossed. The new book is intact.
\<close>

lemma Levels_intact_simps [simp]:
  "Levels_intact []"
  "Levels_intact (x # xs) \<longleftrightarrow> OrderList x \<noteq> [] \<and> Levels_intact xs"
  "Levels_intact (xs @ ys) \<longleftrightarrow> Levels_intact xs \<and> Levels_intact ys"
  by (simp_all add: Levels_intact_def)

lemma Levels_intact_AddOrder:
  "Levels_intact xs \<Longrightarrow> Levels_intact (Levels_AddOrder t p order xs)"
  by (induction xs) (simp_all add: new_level_def level_append_def)

lemma Levels_intact_DeleteOrder:
  "Levels_intact xs \<Longrightarrow> Levels_intact (Levels_DeleteOrder p order xs)"
  by (induction xs) simp_all

lemma Levels_intact_foldl:
  "Levels_intact acc \<Longrightarrow>
     Levels_intact (foldl (\<lambda>ys order. Levels_AddOrder t (StopPrice order) order ys) acc os)"
  by (induction os arbitrary: acc) (simp_all add: Levels_intact_AddOrder)

lemma Levels_intact_Recalculate: "Levels_intact (Levels_Recalculate t f xs)"
  by (simp add: Levels_Recalculate_def Let_def Levels_intact_foldl)

lemma reduce_head_intact: "reduce_head q level = Some l \<Longrightarrow> OrderList l \<noteq> []"
  by (auto simp: reduce_head_def split: list.splits if_splits)

lemma Levels_intact_butlast: "Levels_intact xs \<Longrightarrow> Levels_intact (butlast xs)"
  by (induction xs) simp_all

lemma Levels_intact_tl: "Levels_intact xs \<Longrightarrow> Levels_intact (tl xs)"
  by (cases xs) simp_all

lemma Levels_intact_put_highest:
  "Levels_intact xs \<Longrightarrow> Levels_intact (put_highest (reduce_head q level) xs)"
  by (auto simp: put_highest_def Levels_intact_butlast reduce_head_intact split: option.splits)

lemma Levels_intact_put_lowest:
  "Levels_intact xs \<Longrightarrow> Levels_intact (put_lowest (reduce_head q level) xs)"
  by (auto simp: put_lowest_def Levels_intact_tl reduce_head_intact split: option.splits)

lemma best_highest_Some:
  "Levels_intact xs \<Longrightarrow> best_highest xs = Some b \<Longrightarrow> xs \<noteq> [] \<and> last xs = b \<and> OrderList b \<noteq> []"
proof -
  assume i: "Levels_intact xs" and b: "best_highest xs = Some b"
  from b have ne: "xs \<noteq> []" and l: "last xs = b"
    by (auto simp: best_highest_def split: if_splits)
  from ne have "xs = butlast xs @ [last xs]" by simp
  with i have "Levels_intact (butlast xs @ [last xs])" by simp
  then have "OrderList (last xs) \<noteq> []" by simp
  with ne l show ?thesis by simp
qed

lemma best_lowest_Some:
  "Levels_intact xs \<Longrightarrow> best_lowest xs = Some a \<Longrightarrow> xs \<noteq> [] \<and> hd xs = a \<and> OrderList a \<noteq> []"
  by (cases xs) (simp_all add: best_lowest_def)

lemma intact_set_bids:
  "OrderBook_intact s \<Longrightarrow> Levels_intact xs \<Longrightarrow> OrderBook_intact (set_bids xs s)"
  by (simp add: OrderBook_intact_def set_bids_def)

lemma intact_set_asks:
  "OrderBook_intact s \<Longrightarrow> Levels_intact xs \<Longrightarrow> OrderBook_intact (set_asks xs s)"
  by (simp add: OrderBook_intact_def set_asks_def)

lemma intact_set_buy_stop:
  "OrderBook_intact s \<Longrightarrow> Levels_intact xs \<Longrightarrow> OrderBook_intact (set_buy_stop xs s)"
  by (simp add: OrderBook_intact_def set_buy_stop_def)

lemma intact_set_sell_stop:
  "OrderBook_intact s \<Longrightarrow> Levels_intact xs \<Longrightarrow> OrderBook_intact (set_sell_stop xs s)"
  by (simp add: OrderBook_intact_def set_sell_stop_def)

lemma intact_set_trailing_buy_stop:
  "OrderBook_intact s \<Longrightarrow> Levels_intact xs \<Longrightarrow> OrderBook_intact (set_trailing_buy_stop xs s)"
  by (simp add: OrderBook_intact_def set_trailing_buy_stop_def)

lemma intact_set_trailing_sell_stop:
  "OrderBook_intact s \<Longrightarrow> Levels_intact xs \<Longrightarrow> OrderBook_intact (set_trailing_sell_stop xs s)"
  by (simp add: OrderBook_intact_def set_trailing_sell_stop_def)

lemmas intact_set =
  intact_set_bids intact_set_asks intact_set_buy_stop intact_set_sell_stop
  intact_set_trailing_buy_stop intact_set_trailing_sell_stop

lemma intact_indices:
  assumes "OrderBook_intact s"
  shows "Levels_intact (bids s)" "Levels_intact (asks s)"
    "Levels_intact (buy_stop s)" "Levels_intact (sell_stop s)"
    "Levels_intact (trailing_buy_stop s)" "Levels_intact (trailing_sell_stop s)"
  using assms by (simp_all add: OrderBook_intact_def)

lemma intact_UpdateLastPrice:
  "OrderBook_intact s \<Longrightarrow> OrderBook_intact (UpdateLastPrice order s)"
  by (simp add: OrderBook_intact_def UpdateLastPrice_def)

lemma MatchPair_intact:
  assumes i: "OrderBook_intact s" and c: "crossed s"
  shows "\<exists>s'. MatchPair s = Inr s' \<and> OrderBook_intact s'"
proof -
  from c obtain b a where bb: "best_bid s = Some b" and ba: "best_ask s = Some a"
    by (auto simp: crossed_def split: option.splits)
  from i bb ba have hb: "best_highest (bids s) = Some b" and ha: "best_lowest (asks s) = Some a"
    by (simp_all add: OrderBook_intact_def)
  from best_highest_Some [OF intact_indices(1) [OF i] hb]
  obtain bo br where ob: "OrderList b = bo # br" by (cases "OrderList b") auto
  from best_lowest_Some [OF intact_indices(2) [OF i] ha]
  obtain ao ar where oa: "OrderList a = ao # ar" by (cases "OrderList a") auto
  define q where "q = std_min (LeavesQuantity bo) (LeavesQuantity ao)"
  define s1 where "s1 = set_bids (put_highest (reduce_head q b) (bids s)) s"
  define s2 where "s2 = set_asks (put_lowest (reduce_head q a) (asks s1)) s1"
  define s3 where "s3 = UpdateLastPrice (if Sequence bo < Sequence ao then ao else bo) s2"
  have i1: "OrderBook_intact s1"
    unfolding s1_def
    by (rule intact_set_bids [OF i Levels_intact_put_highest [OF intact_indices(1) [OF i]]])
  have i2: "OrderBook_intact s2"
    unfolding s2_def
    by (rule intact_set_asks [OF i1 Levels_intact_put_lowest [OF intact_indices(2) [OF i1]]])
  have i3: "OrderBook_intact s3"
    unfolding s3_def by (rule intact_UpdateLastPrice [OF i2])
  have "asks s1 = asks s" by (simp add: s1_def set_bids_def)
  with bb ba hb ha ob oa have "MatchPair s = Inr s3"
    by (simp add: MatchPair_def Let_def s3_def s2_def s1_def q_def)
  with i3 show ?thesis by blast
qed

lemma Match_intact: "OrderBook_intact s \<Longrightarrow> \<exists>s'. Match s = Inr s' \<and> OrderBook_intact s'"
proof (induction s rule: Match.induct)
  case (1 s)
  show ?case
  proof (cases "crossed s")
    case True
    from MatchPair_intact [OF "1.prems" True]
    obtain s1 where m: "MatchPair s = Inr s1" and i1: "OrderBook_intact s1" by blast
    from "1.IH" [OF True m i1] obtain s' where "Match s1 = Inr s'" "OrderBook_intact s'"
      by blast
    with True m Match.simps [of s] show ?thesis by simp
  next
    case False
    with "1.prems" Match.simps [of s] show ?thesis by simp
  qed
qed

lemma Recalculate_intact:
  "OrderBook_intact s \<Longrightarrow> OrderBook_intact (RecalculateTrailingStops s)"
  by (simp add: RecalculateTrailingStops_def Let_def intact_set Levels_intact_Recalculate)

lemma take_lowest_intact:
  assumes "Levels_intact xs" and "best = best_lowest xs" and "best \<noteq> None"
  shows "\<exists>order ys. take_lowest best xs = Inr (order, ys) \<and> Levels_intact ys"
proof -
  from assms obtain a where a: "best_lowest xs = Some a" by (cases best) auto
  from best_lowest_Some [OF assms(1) a]
  obtain order rest where "OrderList (hd xs) = order # rest" by (cases "OrderList a") auto
  with assms show ?thesis
    by (simp add: take_lowest_def Levels_intact_put_lowest)
qed

lemma take_highest_intact:
  assumes "Levels_intact xs" and "best = best_highest xs" and "best \<noteq> None"
  shows "\<exists>order ys. take_highest best xs = Inr (order, ys) \<and> Levels_intact ys"
proof -
  from assms obtain b where b: "best_highest xs = Some b" by (cases best) auto
  from best_highest_Some [OF assms(1) b]
  obtain order rest where "OrderList (last xs) = order # rest" by (cases "OrderList b") auto
  with assms show ?thesis
    by (simp add: take_highest_def Levels_intact_put_highest)
qed

lemma buy_triggered_Some: "buy_triggered m best \<Longrightarrow> best \<noteq> None"
  by (cases best) (simp_all add: buy_triggered_def)

lemma sell_triggered_Some: "sell_triggered m best \<Longrightarrow> best \<noteq> None"
  by (cases best) (simp_all add: sell_triggered_def)

lemma NextActivation_intact:
  assumes i: "OrderBook_intact s"
  shows "NextActivation s = None
    \<or> (\<exists>order s1. NextActivation s = Some (Inr (order, s1)) \<and> OrderBook_intact s1)"
proof -
  let ?ask = "fst (GetMarketPriceAsk s)" and ?bid = "fst (GetMarketPriceBid s)"
  from i have p: "best_buy_stop s = best_lowest (buy_stop s)"
    "best_sell_stop s = best_highest (sell_stop s)"
    "best_trailing_buy_stop s = best_lowest (trailing_buy_stop s)"
    "best_trailing_sell_stop s = best_highest (trailing_sell_stop s)"
    by (simp_all add: OrderBook_intact_def)
  consider (a) "buy_triggered ?ask (best_buy_stop s)"
    | (b) "\<not> buy_triggered ?ask (best_buy_stop s)" "sell_triggered ?bid (best_sell_stop s)"
    | (c) "\<not> buy_triggered ?ask (best_buy_stop s)" "\<not> sell_triggered ?bid (best_sell_stop s)"
        "buy_triggered ?ask (best_trailing_buy_stop s)"
    | (d) "\<not> buy_triggered ?ask (best_buy_stop s)" "\<not> sell_triggered ?bid (best_sell_stop s)"
        "\<not> buy_triggered ?ask (best_trailing_buy_stop s)"
        "sell_triggered ?bid (best_trailing_sell_stop s)"
    | (e) "\<not> buy_triggered ?ask (best_buy_stop s)" "\<not> sell_triggered ?bid (best_sell_stop s)"
        "\<not> buy_triggered ?ask (best_trailing_buy_stop s)"
        "\<not> sell_triggered ?bid (best_trailing_sell_stop s)"
    by blast
  then show ?thesis
  proof cases
    case a
    from take_lowest_intact [OF intact_indices(3) [OF i] p(1) buy_triggered_Some [OF a]]
    obtain order ys where "take_lowest (best_buy_stop s) (buy_stop s) = Inr (order, ys)"
      and "Levels_intact ys" by blast
    with a i show ?thesis by (simp add: NextActivation_def Let_def intact_set)
  next
    case b
    from take_highest_intact [OF intact_indices(4) [OF i] p(2) sell_triggered_Some [OF b(2)]]
    obtain order ys where "take_highest (best_sell_stop s) (sell_stop s) = Inr (order, ys)"
      and "Levels_intact ys" by blast
    with b i show ?thesis by (simp add: NextActivation_def Let_def intact_set)
  next
    case c
    from take_lowest_intact [OF intact_indices(5) [OF i] p(3) buy_triggered_Some [OF c(3)]]
    obtain order ys where
      "take_lowest (best_trailing_buy_stop s) (trailing_buy_stop s) = Inr (order, ys)"
      and "Levels_intact ys" by blast
    with c i show ?thesis by (simp add: NextActivation_def Let_def intact_set)
  next
    case d
    from take_highest_intact [OF intact_indices(6) [OF i] p(4) sell_triggered_Some [OF d(4)]]
    obtain order ys where
      "take_highest (best_trailing_sell_stop s) (trailing_sell_stop s) = Inr (order, ys)"
      and "Levels_intact ys" by blast
    with d i show ?thesis by (simp add: NextActivation_def Let_def intact_set)
  next
    case e
    then show ?thesis by (simp add: NextActivation_def Let_def)
  qed
qed

lemma InsertOrder_intact: "OrderBook_intact s \<Longrightarrow> OrderBook_intact (InsertOrder order s)"
  by (cases "Order.Type order")
    (simp_all add: InsertOrder_def AddLimit_def AddStop_def AddTrailingStop_def Let_def
      intact_set intact_indices Levels_intact_AddOrder)

lemma RemoveOrder_intact: "OrderBook_intact s \<Longrightarrow> OrderBook_intact (RemoveOrder order s)"
  by (cases "Order.Type order")
    (simp_all add: RemoveOrder_def intact_set intact_indices Levels_intact_DeleteOrder)

lemma Activate_intact:
  "OrderBook_intact s \<Longrightarrow> \<exists>s'. Activate s = Inr s' \<and> OrderBook_intact s'"
proof (induction s rule: Activate.induct)
  case (1 s)
  let ?s0 = "RecalculateTrailingStops s"
  have i0: "OrderBook_intact ?s0" by (rule Recalculate_intact [OF "1.prems"])
  from NextActivation_intact [OF i0] show ?case
  proof
    assume "NextActivation ?s0 = None"
    with i0 Activate.simps [of s] show ?thesis by simp
  next
    assume "\<exists>order s1. NextActivation ?s0 = Some (Inr (order, s1)) \<and> OrderBook_intact s1"
    then obtain order s1 where n: "NextActivation ?s0 = Some (Inr (order, s1))"
      and i1: "OrderBook_intact s1" by blast
    from Match_intact [OF InsertOrder_intact [OF i1, of "ActivatedOrder order"]]
    obtain s2 where m: "Match (InsertOrder (ActivatedOrder order) s1) = Inr s2"
      and i2: "OrderBook_intact s2" by blast
    from "1.IH" [OF n refl refl m i2]
    obtain s' where "Activate s2 = Inr s'" "OrderBook_intact s'" by blast
    with n m Activate.simps [of s] show ?thesis by simp
  qed
qed

lemma Complete_intact:
  assumes "OrderBook_intact s"
  shows "\<exists>s'. Complete s = Inr s' \<and> OrderBook_intact s' \<and> \<not> crossed s'"
proof -
  from Match_intact [OF assms] obtain s1 where m: "Match s = Inr s1"
    and i1: "OrderBook_intact s1" by blast
  from Activate_intact [OF i1] obtain s' where a: "Activate s1 = Inr s'"
    and i': "OrderBook_intact s'" by blast
  from m a have c: "Complete s = Inr s'" by (simp add: Complete_def)
  from Complete_uncrossed [OF c] c i' show ?thesis by blast
qed

lemma AddOrder_completes:
  assumes "OrderBook_intact s"
  shows "AddOrder order s = Inl InvalidOrder \<or> AddOrder order s = Inl DuplicateOrder
    \<or> (\<exists>s'. AddOrder order s = Inr s' \<and> OrderBook_intact s' \<and> \<not> crossed s')"
  using Complete_intact [OF InsertOrder_intact [OF assms]]
  by (simp add: AddOrder_def)

lemma CancelOrder_completes:
  assumes "OrderBook_intact s"
  shows "CancelOrder order_id s = Inl OrderNotFound
    \<or> (\<exists>s'. CancelOrder order_id s = Inr s' \<and> OrderBook_intact s' \<and> \<not> crossed s')"
  using Complete_intact [OF RemoveOrder_intact [OF assms]]
  by (simp add: CancelOrder_def split: option.split)

lemma ModifyOrder_completes:
  assumes "OrderBook_intact s"
  shows "ModifyOrder order_id p q s = Inl OrderNotFound
    \<or> ModifyOrder order_id p q s = Inl InvalidOrder
    \<or> (\<exists>s'. ModifyOrder order_id p q s = Inr s' \<and> OrderBook_intact s' \<and> \<not> crossed s')"
  using Complete_intact [OF InsertOrder_intact [OF RemoveOrder_intact [OF assms]]]
  by (simp add: ModifyOrder_def split: option.split)

lemma OrderBook_new_intact: "OrderBook_intact (OrderBook_new sy)"
  by (simp add: OrderBook_intact_def OrderBook_new_def best_highest_def best_lowest_def)

lemma example_book_intact: "OrderBook_intact example_book"
  by (simp add: OrderBook_intact_def example_defs best_highest_def best_lowest_def)

section \<open>Scenarios\<close>

text \<open>
  The scenario of section 8, "resting sell limit, quantity 10 at price 100; incoming buy market
  order quantity 10 [...]; both orders fully filled; both levels removed; best bid/ask become
  absent"; a stop order whose trigger is met at submission, which is activated, enters the
  bids and trades; and the business errors.
\<close>

lemma market_order_scenario:
  "(case AddOrder (example_order 1 SELL LIMIT 100 0) (OrderBook_new (1::nat)) of
      Inl e \<Rightarrow> False
    | Inr s1 \<Rightarrow>
        best_ask s1 = Some (example_level ASK 100 (example_order 1 SELL LIMIT 100 0))
        \<and> (case AddOrder (example_order 2 BUY MARKET 100 0) s1 of
              Inl e \<Rightarrow> False
            | Inr s2 \<Rightarrow> bids s2 = [] \<and> asks s2 = [] \<and> best_bid s2 = None
                \<and> best_ask s2 = None \<and> last_bid_price s2 = 100))"
  by (simp add: engine_defs Match.simps Activate.simps example_level_def example_order_def
      OrderBook_new_def UINT64_MAX_def Let_def)

lemma stop_order_scenario:
  "(case AddOrder (example_order 1 SELL LIMIT 100 0) (OrderBook_new (1::nat)) of
      Inl e \<Rightarrow> False
    | Inr s1 \<Rightarrow>
        (case AddOrder ((example_order 2 BUY STOP_LIMIT 100 100)\<lparr>Quantity := 4\<rparr>) s1 of
           Inl e \<Rightarrow> False
         | Inr s2 \<Rightarrow> buy_stop s2 = [] \<and> bids s2 = []
             \<and> map (\<lambda>level. (LevelNode.Price level, TotalVolume level)) (asks s2) = [(100, 6)]))"
  by (simp add: engine_defs Match.simps Activate.simps example_level_def example_order_def
      OrderBook_new_def UINT64_MAX_def Let_def AddStop_def set_buy_stop_def
      take_lowest_def ActivatedOrder_def)

lemma rejected_orders:
  "AddOrder (example_order 3 BUY LIMIT 50 0) example_book = Inl DuplicateOrder"
  "AddOrder (example_order 30 BUY LIMIT 0 0) example_book = Inl InvalidOrder"
  "CancelOrder 33 example_book = Inl OrderNotFound"
  "ModifyOrder 33 100 1 example_book = Inl OrderNotFound"
  "ModifyOrder 3 100 0 example_book = Inl InvalidOrder"
  by (simp_all add: AddOrder_def CancelOrder_def ModifyOrder_def FindOrder_def all_orders_def
      example_defs)

section \<open>The engine keeps every index in one key order\<close>

text \<open>
  Every operation of the engine keeps the six indices in ascending order of price, with nodes
  of the style of their side; the new book is in that state.
\<close>

lemma Levels_keyed_Nil [simp]: "Levels_keyed t []"
  by (simp add: Levels_keyed_def)






lemma level_remove_same [simp]:
  "LevelNode.Price (level_remove order y) = LevelNode.Price y"
  "LevelNode.Type (level_remove order y) = LevelNode.Type y"
  by (simp_all add: level_remove_def)


























section \<open>The stop indices\<close>





section \<open>The trailing prices\<close>




end
